theory Spec2Isabelle
  imports Main "HOL-Library.Char_ord" "HOL-Library.List_Lexorder" "HOL-Library.Sublist" "HOL-Library.AList"
begin

section \<open>Transformation specs as JSON values\<close>

text \<open>
  A transformation spec reaches the program as the parsed JSON body of a request
  (\<^verbatim>\<open>req.body.transformations\<close>) or of a queue message. An object is an
  association list in the object's own key order; a JavaScript object has no duplicate keys.
  Numbers are the integers that JavaScript prints in plain decimal (below \<open>10^21\<close> in
  absolute value); strings are byte strings (UTF-8).
\<close>

datatype json =
    JNull
  | JBool bool
  | JNum int
  | JStr string
  | JArr "json list"
  | JObj "(string \<times> json) list"

type_synonym fields = "(string \<times> json) list"

text \<open>Well-formed values: no object, at any depth, has two fields of the same name.\<close>

fun wf_json :: "json \<Rightarrow> bool" where
  "wf_json (JArr xs) = list_all wf_json xs"
| "wf_json (JObj fs) = (distinct (map fst fs) \<and> list_all (\<lambda>kv. wf_json (snd kv)) fs)"
| "wf_json _ = True"

subsection \<open>Number and string rendering of \<^verbatim>\<open>JSON.stringify\<close>\<close>

definition digit_char :: "nat \<Rightarrow> char" where
  "digit_char d = char_of (48 + d)"

fun show_nat :: "nat \<Rightarrow> string" where
  "show_nat n = (if n < 10 then [digit_char n] else show_nat (n div 10) @ [digit_char (n mod 10)])"

declare show_nat.simps [simp del]

definition show_int :: "int \<Rightarrow> string" where
  "show_int i = (if i < 0 then CHR ''-'' # show_nat (nat (- i)) else show_nat (nat i))"

definition hex_char :: "nat \<Rightarrow> char" where
  "hex_char d = (if d < 10 then char_of (48 + d) else char_of (87 + d))"

text \<open>QuoteJSONString: the two-character escapes, \<^verbatim>\<open>\u00xx\<close> for the other control
  characters, every other byte unchanged.\<close>

definition escape_char :: "char \<Rightarrow> string" where
  "escape_char c =
     (let n = (of_char c :: nat) in
      if n = 8 then [CHR 0x5C, CHR ''b'']
      else if n = 9 then [CHR 0x5C, CHR ''t'']
      else if n = 10 then [CHR 0x5C, CHR ''n'']
      else if n = 12 then [CHR 0x5C, CHR ''f'']
      else if n = 13 then [CHR 0x5C, CHR ''r'']
      else if n = 34 then [CHR 0x5C, CHR 0x22]
      else if n = 92 then [CHR 0x5C, CHR 0x5C]
      else if n < 32 then [CHR 0x5C, CHR ''u'', CHR ''0'', CHR ''0'', hex_char (n div 16), hex_char (n mod 16)]
      else [c])"

definition quote :: "string \<Rightarrow> string" where
  "quote s = CHR 0x22 # concat (map escape_char s) @ [CHR 0x22]"

fun join :: "string list \<Rightarrow> string" where
  "join [] = []"
| "join [s] = s"
| "join (s # t # ss) = s @ CHR '','' # join (t # ss)"

subsection \<open>\<^verbatim>\<open>JSON.stringify(value, propertyList)\<close>\<close>

text \<open>
  With an array as replacer, \<^verbatim>\<open>JSON.stringify\<close> writes, for every object at every
  depth, exactly the properties named in the array, in the array's order (SerializeJSONObject
  takes its keys \<open>K\<close> from the property list, and skips a key whose value is undefined).
  Array elements are serialised in index order. No indentation is requested. A property
  is looked up among the object's own fields; names that only the prototype answers
  (\<^verbatim>\<open>__proto__\<close>) are not field names here.
\<close>

lemma size_map_of [termination_simp]:
  "map_of fs k = Some v \<Longrightarrow> size v < Suc (size_list (\<lambda>x. Suc (size (snd x))) fs)"
  by (induction fs) (auto split: if_splits)

fun stringify :: "string list \<Rightarrow> json \<Rightarrow> string" where
  "stringify pl JNull = ''null''"
| "stringify pl (JBool b) = (if b then ''true'' else ''false'')"
| "stringify pl (JNum n) = show_int n"
| "stringify pl (JStr s) = quote s"
| "stringify pl (JArr xs) = ''['' @ join (map (stringify pl) xs) @ '']''"
| "stringify pl (JObj fs) =
     ''{'' @ join (concat (map (\<lambda>k. case map_of fs k of
                                        None \<Rightarrow> []
                                      | Some v \<Rightarrow> [quote k @ '':'' @ stringify pl v]) pl)) @ ''}''"

subsection \<open>Base64 of a byte string (\<^verbatim>\<open>Buffer.from(s).toString('base64')\<close>)\<close>

definition b64_char :: "nat \<Rightarrow> char" where
  "b64_char n =
     (if n < 26 then char_of (65 + n)
      else if n < 52 then char_of (71 + n)
      else if n < 62 then char_of (n - 4)
      else if n = 62 then CHR ''+'' else CHR ''/'')"

fun base64 :: "nat list \<Rightarrow> string" where
  "base64 [] = []"
| "base64 [a] = [b64_char (a div 4), b64_char ((a mod 4) * 16), CHR ''='', CHR ''='']"
| "base64 [a, b] =
     [b64_char (a div 4), b64_char ((a mod 4) * 16 + b div 16), b64_char ((b mod 16) * 4), CHR ''='']"
| "base64 (a # b # c # rest) =
     [b64_char (a div 4), b64_char ((a mod 4) * 16 + b div 16),
      b64_char ((b mod 16) * 4 + c div 64), b64_char (c mod 64)] @ base64 rest"

subsection \<open>The cache key\<close>

text \<open>
  \<^verbatim>\<open>Object.keys(transformations).sort()\<close>: the top-level field names in ascending order
  of their code units. \<^verbatim>\<open>generateCacheKey\<close> passes that array as the replacer.
\<close>

definition object_keys :: "fields \<Rightarrow> string list" where
  "object_keys t = map fst t"

definition generateCacheKey :: "string \<Rightarrow> fields \<Rightarrow> string" where
  "generateCacheKey imageId transformations =
     (let sortedTransformations = stringify (sort (object_keys transformations)) (JObj transformations)
      in ''img_'' @ imageId @ ''_'' @ base64 (map of_char sortedTransformations))"

subsection \<open>Specs that are equal up to field order, and specs that differ in nested values\<close>

text \<open>
  \<open>reordered v w\<close>: \<open>w\<close> has the same field-value pairs as \<open>v\<close>, in any entry
  order, at every depth: every field name has a value in both objects or in neither, and
  the two values are again equal up to field order. Array elements keep their positions.
\<close>

inductive reordered :: "json \<Rightarrow> json \<Rightarrow> bool" where
  reordered_null: "reordered JNull JNull"
| reordered_bool: "reordered (JBool b) (JBool b)"
| reordered_num: "reordered (JNum n) (JNum n)"
| reordered_str: "reordered (JStr s) (JStr s)"
| reordered_arr: "list_all2 reordered xs ys \<Longrightarrow> reordered (JArr xs) (JArr ys)"
| reordered_obj: "(\<forall>k. rel_option reordered (map_of fs k) (map_of gs k)) \<Longrightarrow> reordered (JObj fs) (JObj gs)"

text \<open>
  \<open>differ_nested K v w\<close>: \<open>v\<close> and \<open>w\<close> have the same shape and the same field
  names in the same order, and differ at most in the values of fields whose names are
  not in \<open>K\<close>.
\<close>

inductive differ_nested :: "string list \<Rightarrow> json \<Rightarrow> json \<Rightarrow> bool" for K where
  differ_null: "differ_nested K JNull JNull"
| differ_bool: "differ_nested K (JBool b) (JBool b)"
| differ_num: "differ_nested K (JNum n) (JNum n)"
| differ_str: "differ_nested K (JStr s) (JStr s)"
| differ_arr: "list_all2 (differ_nested K) xs ys \<Longrightarrow> differ_nested K (JArr xs) (JArr ys)"
| differ_obj: "list_all2 (\<lambda>f g. fst f = fst g \<and> (fst f \<in> set K \<longrightarrow> differ_nested K (snd f) (snd g))) fs gs
     \<Longrightarrow> differ_nested K (JObj fs) (JObj gs)"

section \<open>JavaScript values in the pipeline\<close>

text \<open>
  A value read from the spec is a JSON value or \<^verbatim>\<open>undefined\<close> (\<open>None\<close>).
  \<open>field v name\<close> is the property read \<^verbatim>\<open>v.name\<close> on a value that is not
  null or undefined (every read in the pipeline stands behind a truthiness test of the
  object it reads from): the field of an object, undefined on anything else. The routes
  validate the body first, so \<^verbatim>\<open>resize\<close>, \<^verbatim>\<open>crop\<close>, \<^verbatim>\<open>filters\<close> and
  \<^verbatim>\<open>watermark\<close> are objects when present, and \<^verbatim>\<open>format\<close> is a string.
\<close>

type_synonym jsval = "json option"

definition field :: "jsval \<Rightarrow> string \<Rightarrow> jsval" where
  "field v name = (case v of Some (JObj fs) \<Rightarrow> map_of fs name | _ \<Rightarrow> None)"

fun truthy :: "jsval \<Rightarrow> bool" where
  "truthy None = False"
| "truthy (Some JNull) = False"
| "truthy (Some (JBool b)) = b"
| "truthy (Some (JNum n)) = (n \<noteq> 0)"
| "truthy (Some (JStr s)) = (s \<noteq> [])"
| "truthy (Some (JArr xs)) = True"
| "truthy (Some (JObj fs)) = True"

text \<open>\<^verbatim>\<open>a || b\<close> and \<^verbatim>\<open>typeof v === 'number'\<close>.\<close>

definition js_or :: "jsval \<Rightarrow> jsval \<Rightarrow> jsval" where
  "js_or a b = (if truthy a then a else b)"

fun is_number :: "jsval \<Rightarrow> bool" where
  "is_number (Some (JNum n)) = True"
| "is_number _ = False"

datatype error = ApiError nat string | Error string

fun message :: "error \<Rightarrow> string" where
  "message (ApiError code msg) = msg"
| "message (Error msg) = msg"

subsection \<open>Paths\<close>

text \<open>
  \<^verbatim>\<open>path.extname(p).slice(1)\<close>: what follows the last dot of the last path segment,
  empty when the segment has no dot or only a leading one. \<open>toLowerCase\<close> on ASCII.
\<close>

definition basename :: "string \<Rightarrow> string" where
  "basename p = rev (takeWhile (\<lambda>c. c \<noteq> CHR ''/'') (rev p))"

definition extname_slice1 :: "string \<Rightarrow> string" where
  "extname_slice1 p =
     (let b = basename p; e = rev (takeWhile (\<lambda>c. c \<noteq> CHR ''.'') (rev b))
      in if CHR ''.'' \<notin> set b \<or> Suc (length e) = length b then [] else e)"

definition lower_char :: "char \<Rightarrow> char" where
  "lower_char c = (let n = (of_char c :: nat) in if 65 \<le> n \<and> n \<le> 90 then char_of (n + 32) else c)"

definition toLowerCase :: "string \<Rightarrow> string" where
  "toLowerCase s = map lower_char s"

definition path_join :: "string \<Rightarrow> string \<Rightarrow> string" where
  "path_join dir name = dir @ ''/'' @ name"

section \<open>The calls made on the sharp instance\<close>

text \<open>
  Both pipelines build one sharp instance by chained method calls and end with
  \<^verbatim>\<open>toFile\<close>. A pipeline is modelled by the list of calls it makes, each with the
  arguments it passes. The overlay of \<open>Composite\<close> is the SVG text that
  \<^verbatim>\<open>generateWatermarkSvg\<close> computes from the watermark object (floating-point
  layout arithmetic); the call records the object it is computed from.
  \<open>Saturation_half\<close> is the literal \<^verbatim>\<open>{ saturation: 0.5 }\<close>.
\<close>

record resize_options =
  fit :: jsval
  position :: jsval
  withoutEnlargement :: jsval

datatype modulate_options =
    Saturation_half
  | Brightness jsval
  | Saturation jsval
  | Hue jsval

datatype sharp_call =
    Resize jsval jsval resize_options
  | Extract jsval jsval jsval jsval
  | Rotate jsval "(int \<times> int \<times> int \<times> int) option"
  | Flip
  | Flop
  | Grayscale
  | Modulate modulate_options
  | Tint int int int
  | Blur jsval
  | Sharpen
  | Negate
  | Normalize
  | Gamma jsval
  | Composite json jsval
  | Jpeg jsval bool
  | Png jsval "int option"
  | Webp jsval
  | Gif
  | Tiff jsval
  | Avif jsval
  | ToFormat string

text \<open>
  The output format: \<^verbatim>\<open>format || ext || 'jpeg'\<close>. A truthy \<open>format\<close> that is
  not a string makes both pipelines throw a TypeError before anything is written
  (\<^verbatim>\<open>toLowerCase\<close> is not a function of it).
\<close>

definition output_format :: "jsval \<Rightarrow> string \<Rightarrow> error + string" where
  "output_format format ext =
     (if truthy format then
        (case format of Some (JStr s) \<Rightarrow> Inr s
                      | _ \<Rightarrow> Inl (Error ''toLowerCase is not a function''))
      else if ext \<noteq> [] then Inr ext else Inr ''jpeg'')"

subsection \<open>The inline pipeline of \<^verbatim>\<open>transformImageSync\<close>\<close>

definition sync_stages :: "fields \<Rightarrow> sharp_call list" where
  "sync_stages transformations =
     (let resize = map_of transformations ''resize'';
          crop = map_of transformations ''crop'';
          rotate = map_of transformations ''rotate'';
          filters = map_of transformations ''filters'';
          flip = map_of transformations ''flip'';
          flop = map_of transformations ''flop''
      in
        (if truthy resize then
           [Resize (field resize ''width'') (field resize ''height'')
              \<lparr>fit = js_or (field resize ''fit'') (Some (JStr ''cover'')),
               position = js_or (field resize ''position'') (Some (JStr ''center'')),
               withoutEnlargement = None\<rparr>]
         else []) @
        (if truthy crop then
           [Extract (js_or (field crop ''x'') (Some (JNum 0))) (js_or (field crop ''y'') (Some (JNum 0)))
              (field crop ''width'') (field crop ''height'')]
         else []) @
        (if truthy rotate then [Rotate rotate None] else []) @
        (if truthy flip then [Flip] else []) @
        (if truthy flop then [Flop] else []) @
        (if truthy filters then
           (if truthy (field filters ''grayscale'') then [Grayscale] else []) @
           (if truthy (field filters ''sepia'') then [Tint 112 66 20] else []) @
           (if truthy (field filters ''blur'') then [Blur (field filters ''blur'')] else []) @
           (if truthy (field filters ''sharpen'') then [Sharpen] else []) @
           (if truthy (field filters ''negate'') then [Negate] else [])
         else []))"

definition sync_encode :: "fields \<Rightarrow> string \<Rightarrow> sharp_call" where
  "sync_encode transformations outputFormat =
     (let quality = map_of transformations ''quality'' in
      if outputFormat = ''jpeg'' \<or> outputFormat = ''jpg'' then Jpeg (js_or quality (Some (JNum 80))) False
      else if outputFormat = ''png'' then Png (js_or quality (Some (JNum 80))) None
      else if outputFormat = ''webp'' then Webp (js_or quality (Some (JNum 80)))
      else ToFormat outputFormat)"

definition sync_pipeline :: "string \<Rightarrow> fields \<Rightarrow> error + sharp_call list \<times> string" where
  "sync_pipeline filename transformations =
     (case output_format (map_of transformations ''format'') (extname_slice1 filename) of
        Inl e \<Rightarrow> Inl e
      | Inr outputFormat \<Rightarrow>
          Inr (sync_stages transformations @ [sync_encode transformations outputFormat], outputFormat))"

subsection \<open>\<^verbatim>\<open>applyTransformations\<close>, the worker's pipeline\<close>

definition worker_resize :: "jsval \<Rightarrow> sharp_call list" where
  "worker_resize resize =
     (if truthy resize then
        (let resizeOptions =
               \<lparr>fit = js_or (field resize ''fit'') (Some (JStr ''cover'')),
                position = js_or (field resize ''position'') (Some (JStr ''center'')),
                withoutEnlargement = js_or (field resize ''withoutEnlargement'') (Some (JBool False))\<rparr>
         in if truthy (field resize ''width'') \<and> truthy (field resize ''height'')
              then [Resize (field resize ''width'') (field resize ''height'') resizeOptions]
            else if truthy (field resize ''width'')
              then [Resize (field resize ''width'') (Some JNull) resizeOptions]
            else if truthy (field resize ''height'')
              then [Resize (Some JNull) (field resize ''height'') resizeOptions]
            else [])
      else [])"

definition worker_filters :: "jsval \<Rightarrow> sharp_call list" where
  "worker_filters filters =
     (if truthy filters then
        (if truthy (field filters ''grayscale'') then [Grayscale] else []) @
        (if truthy (field filters ''sepia'') then [Modulate Saturation_half, Tint 112 66 20] else []) @
        (if truthy (field filters ''blur'') then
           [Blur (if is_number (field filters ''blur'') then field filters ''blur'' else Some (JNum 3))]
         else []) @
        (if truthy (field filters ''sharpen'') then [Sharpen] else []) @
        (if truthy (field filters ''negate'') then [Negate] else []) @
        (if truthy (field filters ''normalize'') then [Normalize] else []) @
        (if truthy (field filters ''gamma'') then [Gamma (field filters ''gamma'')] else []) @
        (if truthy (field filters ''brightness'') then [Modulate (Brightness (field filters ''brightness''))] else []) @
        (if truthy (field filters ''saturation'') then [Modulate (Saturation (field filters ''saturation''))] else []) @
        (if truthy (field filters ''hue'') then [Modulate (Hue (field filters ''hue''))] else [])
      else [])"

text \<open>
  The watermark stage. \<^verbatim>\<open>generateWatermarkSvg\<close> reads \<^verbatim>\<open>text.length\<close> and
  calls \<^verbatim>\<open>text.replace\<close>: a truthy text that is not a string throws.
\<close>

definition worker_watermark :: "jsval \<Rightarrow> error + sharp_call list" where
  "worker_watermark watermark =
     (if truthy watermark \<and> truthy (field watermark ''text'') then
        (case (watermark, field watermark ''text'') of
           (Some w, Some (JStr s)) \<Rightarrow>
             Inr [Composite w (js_or (field watermark ''position'') (Some (JStr ''southeast'')))]
         | _ \<Rightarrow> Inl (Error ''text.replace is not a function''))
      else Inr [])"

definition worker_stages :: "fields \<Rightarrow> error + sharp_call list" where
  "worker_stages transformations =
     (let crop = map_of transformations ''crop'';
          rotate = map_of transformations ''rotate'';
          flip = map_of transformations ''flip'';
          flop = map_of transformations ''flop''
      in case worker_watermark (map_of transformations ''watermark'') of
           Inl e \<Rightarrow> Inl e
         | Inr composite \<Rightarrow>
             Inr (worker_resize (map_of transformations ''resize'') @
                  (if truthy crop then
                     [Extract (js_or (field crop ''x'') (Some (JNum 0))) (js_or (field crop ''y'') (Some (JNum 0)))
                        (field crop ''width'') (field crop ''height'')]
                   else []) @
                  (if rotate \<noteq> None \<and> rotate \<noteq> Some JNull then [Rotate rotate (Some (255, 255, 255, 0))] else []) @
                  (if truthy flip then [Flip] else []) @
                  (if truthy flop then [Flop] else []) @
                  worker_filters (map_of transformations ''filters'') @
                  composite))"

definition worker_encode :: "fields \<Rightarrow> string \<Rightarrow> sharp_call" where
  "worker_encode transformations outputFormat =
     (let compress = map_of transformations ''compress'';
          outputQuality = js_or (map_of transformations ''quality'')
                                (Some (JNum (if truthy compress then 60 else 80)));
          f = toLowerCase outputFormat
      in if f = ''jpeg'' \<or> f = ''jpg'' then Jpeg outputQuality True
         else if f = ''png'' then Png outputQuality (Some (if truthy compress then 9 else 6))
         else if f = ''webp'' then Webp outputQuality
         else if f = ''gif'' then Gif
         else if f = ''tiff'' \<or> f = ''tif'' then Tiff outputQuality
         else if f = ''avif'' then Avif outputQuality
         else ToFormat outputFormat)"

definition worker_pipeline :: "string \<Rightarrow> fields \<Rightarrow> error + sharp_call list \<times> string" where
  "worker_pipeline sourcePath transformations =
     (case worker_stages transformations of
        Inl e \<Rightarrow> Inl e
      | Inr stages \<Rightarrow>
          (case output_format (map_of transformations ''format'') (toLowerCase (extname_slice1 sourcePath)) of
             Inl e \<Rightarrow> Inl e
           | Inr outputFormat \<Rightarrow>
               Inr (stages @ [worker_encode transformations outputFormat], outputFormat)))"

section \<open>Files and the image library\<close>

text \<open>
  An image file is known by its pixel size. The sharp library is a parameter of the
  model: \<open>sharp src calls\<close> is what \<^verbatim>\<open>toFile\<close> yields for the source image
  \<open>src\<close> after the chained \<open>calls\<close>, an error or the image written. Every
  library error, whether thrown by a chained call or by \<^verbatim>\<open>toFile\<close>, rejects the
  pipeline before anything is written, so the two are one outcome here.
\<close>

record image_file =
  img_width :: nat
  img_height :: nat

type_synonym files = "string \<rightharpoonup> image_file"

type_synonym sharp = "image_file \<Rightarrow> sharp_call list \<Rightarrow> error + image_file"

text \<open>The directory of processed images; the name stands for the configured path.\<close>

definition PROCESSED_DIR :: string where
  "PROCESSED_DIR = ''processed''"

text \<open>The descriptor that \<^verbatim>\<open>applyTransformations\<close> returns (the byte size is left out).\<close>

record descriptor =
  out_path :: string
  out_filename :: string
  out_format :: string
  out_width :: nat
  out_height :: nat

text \<open>
  \<open>uuid\<close> is the value \<^verbatim>\<open>uuidv4()\<close> returns in this call. The result is the
  descriptor and the file system with the output written.
\<close>

definition applyTransformations ::
  "sharp \<Rightarrow> files \<Rightarrow> string \<Rightarrow> fields \<Rightarrow> string option \<Rightarrow> string \<Rightarrow> error + descriptor \<times> files" where
  "applyTransformations sharp fs sourcePath transformations outputFilename uuid =
     (case fs sourcePath of
        None \<Rightarrow> Inl (Error (''Source file not found: '' @ sourcePath))
      | Some src \<Rightarrow>
          (case worker_pipeline sourcePath transformations of
             Inl e \<Rightarrow> Inl e
           | Inr (calls, outputFormat) \<Rightarrow>
               (let finalOutputFilename =
                      (case outputFilename of
                         Some n \<Rightarrow> if n \<noteq> [] then n else uuid @ ''.'' @ outputFormat
                       | None \<Rightarrow> uuid @ ''.'' @ outputFormat);
                    outputPath = path_join PROCESSED_DIR finalOutputFilename
                in case sharp src calls of
                     Inl e \<Rightarrow> Inl e
                   | Inr outputInfo \<Rightarrow>
                       Inr (\<lparr>out_path = outputPath, out_filename = finalOutputFilename,
                             out_format = outputFormat, out_width = img_width outputInfo,
                             out_height = img_height outputInfo\<rparr>,
                            fs(outputPath \<mapsto> outputInfo)))))"

section \<open>The result cache\<close>

text \<open>
  \<^verbatim>\<open>imageCache\<close> is a \<^verbatim>\<open>NodeCache\<close> built with \<^verbatim>\<open>maxKeys: 1000\<close>. The
  node-cache package is not part of the repository; its operations are modelled after
  the package's documented behaviour: \<^verbatim>\<open>set\<close> throws \<^verbatim>\<open>ECACHEFULL\<close> when the
  key limit is set and the cache already holds that many keys, and stores the value
  otherwise; \<^verbatim>\<open>get\<close> returns the stored value or undefined; \<^verbatim>\<open>del\<close> removes a
  key; \<^verbatim>\<open>getStats().keys\<close> is the number of keys held. Entries are kept in
  insertion order. Expiry after the time to live removes entries; it is an operation
  of its own (\<open>nc_expire\<close>) rather than a clock.
\<close>

record node_cache =
  entries :: "(string \<times> string) list"
  maxKeys :: int

definition imageCache :: node_cache where
  "imageCache = \<lparr>entries = [], maxKeys = 1000\<rparr>"

definition cache_full :: "node_cache \<Rightarrow> bool" where
  "cache_full c = (maxKeys c > - 1 \<and> int (length (entries c)) \<ge> maxKeys c)"

definition nc_set :: "node_cache \<Rightarrow> string \<Rightarrow> string \<Rightarrow> error + node_cache" where
  "nc_set c key val =
     (if cache_full c
      then Inl (Error ''Cache max keys amount exceeded'')
      else Inr (c\<lparr>entries := AList.update key val (entries c)\<rparr>))"

definition nc_get :: "node_cache \<Rightarrow> string \<Rightarrow> string option" where
  "nc_get c key = map_of (entries c) key"

definition nc_del :: "node_cache \<Rightarrow> string \<Rightarrow> node_cache" where
  "nc_del c key = c\<lparr>entries := AList.delete key (entries c)\<rparr>"

definition nc_expire :: "node_cache \<Rightarrow> string list \<Rightarrow> node_cache" where
  "nc_expire c ks = c\<lparr>entries := filter (\<lambda>kv. fst kv \<notin> set ks) (entries c)\<rparr>"

definition getFromCache :: "node_cache \<Rightarrow> string \<Rightarrow> string option" where
  "getFromCache c key =
     (case nc_get c key of
        Some val \<Rightarrow> if val \<noteq> [] then Some val else None
      | None \<Rightarrow> None)"

definition setInCache :: "node_cache \<Rightarrow> string \<Rightarrow> string \<Rightarrow> bool \<times> node_cache" where
  "setInCache c key val =
     (case nc_set c key val of
        Inr c' \<Rightarrow> (True, c')
      | Inl e \<Rightarrow> (False, c))"

definition deleteFromCache :: "node_cache \<Rightarrow> string \<Rightarrow> bool \<times> node_cache" where
  "deleteFromCache c key = (True, nc_del c key)"

definition clearImageCache :: "node_cache \<Rightarrow> string \<Rightarrow> bool \<times> node_cache" where
  "clearImageCache c imageId =
     (let imageKeys = filter (prefix (''img_'' @ imageId @ ''_'')) (map fst (entries c))
      in (True, fold (\<lambda>key c'. nc_del c' key) imageKeys c))"

definition getCacheStats :: "node_cache \<Rightarrow> nat" where
  "getCacheStats c = length (entries c)"

definition flushCache :: "node_cache \<Rightarrow> node_cache" where
  "flushCache c = c\<lparr>entries := []\<rparr>"

text \<open>A history of cache operations, as the two processes and the expiry timer issue them.\<close>

datatype cache_op =
    Set_entry string string
  | Delete_entry string
  | Clear_image string
  | Flush
  | Expire "string list"

fun cache_step :: "node_cache \<Rightarrow> cache_op \<Rightarrow> node_cache" where
  "cache_step c (Set_entry key val) = snd (setInCache c key val)"
| "cache_step c (Delete_entry key) = snd (deleteFromCache c key)"
| "cache_step c (Clear_image imageId) = snd (clearImageCache c imageId)"
| "cache_step c Flush = flushCache c"
| "cache_step c (Expire ks) = nc_expire c ks"

definition cache_run :: "node_cache \<Rightarrow> cache_op list \<Rightarrow> node_cache" where
  "cache_run c ops = foldl cache_step c ops"

section \<open>Image records, jobs and the system state\<close>

datatype status = Pending | Processing | Completed | Failed

datatype history_entry =
    Sync_applied fields string string
  | Job_completed string fields descriptor string

record image =
  userId :: string
  filename :: string
  path :: string
  transformations :: "history_entry list"
  isProcessing :: bool
  processingStatus :: status
  processingError :: "string option"
  lastTransformedAt :: "string option"

record job =
  jobId :: string
  imageId :: string
  job_userId :: string
  sourcePath :: string
  originalFilename :: string
  job_transformations :: fields
  createdAt :: string

text \<open>
  The state of the whole system: the image table, the files on disk, the cache of the
  API process and the cache of the worker process (each process imports the cache
  module and so has its own instance), the API process's channel, and the durable queue.
  \<open>status_log\<close> is the history of the values written to \<^verbatim>\<open>processingStatus\<close>,
  oldest first; \<open>received\<close> is the list of jobs the consumer has logged as received.
\<close>

record state =
  db :: "string \<rightharpoonup> image"
  files :: files
  cache :: node_cache
  worker_cache :: node_cache
  channel_open :: bool
  queue :: "job list"
  status_log :: "(string \<times> status) list"
  received :: "string list"

text \<open>What a request or a delivery brings from outside: the fresh UUID and the clock.\<close>

record env =
  uuid :: string
  now :: string

text \<open>
  \<^verbatim>\<open>Image.update(values, { where: { id } })\<close> for the two status updates of the
  worker and \<^verbatim>\<open>image.update\<close> of the producer: a row that does not exist is not
  written.
\<close>

definition update_status :: "string \<Rightarrow> (image \<Rightarrow> image) \<Rightarrow> status \<Rightarrow> state \<Rightarrow> state" where
  "update_status i f s st =
     (case db st i of
        None \<Rightarrow> st
      | Some r \<Rightarrow> st\<lparr>db := (db st)(i \<mapsto> (f r)\<lparr>processingStatus := s\<rparr>),
                     status_log := status_log st @ [(i, s)]\<rparr>)"

definition findOne :: "state \<Rightarrow> string \<Rightarrow> string \<Rightarrow> image option" where
  "findOne st i uid =
     (case db st i of
        Some r \<Rightarrow> if userId r = uid then Some r else None
      | None \<Rightarrow> None)"

definition publishToQueue :: "state \<Rightarrow> job \<Rightarrow> error + state" where
  "publishToQueue st msg =
     (if channel_open st then Inr (st\<lparr>queue := queue st @ [msg]\<rparr>)
      else Inl (Error ''RabbitMQ channel not initialized''))"

section \<open>The request handlers\<close>

record request =
  params_id :: string
  req_userId :: string
  body_transformations :: fields

datatype response =
    Accepted string string fields
  | SendFile string "string option"

definition contentTypes :: "string \<Rightarrow> string" where
  "contentTypes f =
     (if f = ''jpeg'' \<or> f = ''jpg'' then ''image/jpeg''
      else if f = ''png'' then ''image/png''
      else if f = ''webp'' then ''image/webp''
      else if f = ''gif'' then ''image/gif''
      else if f = ''tiff'' then ''image/tiff''
      else ''application/octet-stream'')"

text \<open>\<^verbatim>\<open>transformImage\<close>: POST /images/:id/transform, the asynchronous endpoint.\<close>

definition transformImage :: "env \<Rightarrow> state \<Rightarrow> request \<Rightarrow> (error + response) \<times> state" where
  "transformImage e st req =
     (case findOne st (params_id req) (req_userId req) of
        None \<Rightarrow> (Inl (ApiError 404 ''Image not found''), st)
      | Some row \<Rightarrow>
          if isProcessing row
            then (Inl (ApiError 409 ''Image is currently being processed. Please wait.''), st)
          else if files st (path row) = None
            then (Inl (ApiError 404 ''Image file not found on disk''), st)
          else
            (let st1 = update_status (params_id req)
                         (\<lambda>r. r\<lparr>isProcessing := True, processingError := None\<rparr>) Pending st;
                 jobMessage = \<lparr>jobId = uuid e, imageId = params_id req, job_userId = req_userId req,
                               sourcePath = path row, originalFilename = filename row,
                               job_transformations = body_transformations req, createdAt = now e\<rparr>
             in case publishToQueue st1 jobMessage of
                  Inl err \<Rightarrow> (Inl err, st1)
                | Inr st2 \<Rightarrow> (Inr (Accepted (uuid e) (params_id req) (body_transformations req)), st2)))"

text \<open>\<^verbatim>\<open>transformImageSync\<close>: POST /images/:id/transform/sync.\<close>

definition transformImageSync :: "sharp \<Rightarrow> env \<Rightarrow> state \<Rightarrow> request \<Rightarrow> (error + response) \<times> state" where
  "transformImageSync sharp e st req =
     (case findOne st (params_id req) (req_userId req) of
        None \<Rightarrow> (Inl (ApiError 404 ''Image not found''), st)
      | Some row \<Rightarrow>
          (case files st (path row) of
             None \<Rightarrow> (Inl (ApiError 404 ''Image file not found on disk''), st)
           | Some src \<Rightarrow>
               (let cacheKey = generateCacheKey (params_id req) (body_transformations req);
                    cachedPath = getFromCache (cache st) cacheKey
                in case (case cachedPath of
                           Some p \<Rightarrow> if files st p \<noteq> None then Some p else None
                         | None \<Rightarrow> None) of
                     Some p \<Rightarrow> (Inr (SendFile p None), st)
                   | None \<Rightarrow>
                       (case sync_pipeline (filename row) (body_transformations req) of
                          Inl err \<Rightarrow> (Inl err, st)
                        | Inr (calls, outputFormat) \<Rightarrow>
                            (let outputFilename = uuid e @ ''.'' @ outputFormat;
                                 outputPath = path_join PROCESSED_DIR outputFilename
                             in case sharp src calls of
                                  Inl err \<Rightarrow> (Inl err, st)
                                | Inr written \<Rightarrow>
                                    (let st1 = st\<lparr>files := (files st)(outputPath \<mapsto> written)\<rparr>;
                                         st2 = st1\<lparr>cache := snd (setInCache (cache st1) cacheKey outputPath)\<rparr>;
                                         newTransformations = transformations row @
                                           [Sync_applied (body_transformations req) outputPath (now e)];
                                         st3 = st2\<lparr>db := (db st2)(params_id req \<mapsto>
                                                 row\<lparr>transformations := newTransformations,
                                                       lastTransformedAt := Some (now e)\<rparr>)\<rparr>
                                     in (Inr (SendFile outputPath (Some (contentTypes outputFormat))), st3)))))))"

section \<open>The worker\<close>

text \<open>\<^verbatim>\<open>processJob\<close>: the \<open>try\<close> block, and the \<open>catch\<close> block that records the
  failure and rethrows.\<close>

definition processJob :: "sharp \<Rightarrow> env \<Rightarrow> state \<Rightarrow> job \<Rightarrow> (error + descriptor) \<times> state" where
  "processJob sharp e st j =
     (let st1 = update_status (imageId j) (\<lambda>r. r\<lparr>processingError := None\<rparr>) Processing st
      in case applyTransformations sharp (files st1) (sourcePath j) (job_transformations j) None (uuid e) of
           Inl err \<Rightarrow>
             (Inl err,
              update_status (imageId j)
                (\<lambda>r. r\<lparr>isProcessing := False, processingError := Some (message err)\<rparr>) Failed st1)
         | Inr (result, fs') \<Rightarrow>
             (let st2 = st1\<lparr>files := fs'\<rparr>
              in case db st2 (imageId j) of
                   None \<Rightarrow> (Inr result, st2)
                 | Some row \<Rightarrow>
                     (let transformationHistory = transformations row @
                            [Job_completed (jobId j) (job_transformations j) result (now e)];
                          st3 = update_status (imageId j)
                                  (\<lambda>r. r\<lparr>isProcessing := False, processingError := None,
                                         transformations := transformationHistory,
                                         lastTransformedAt := Some (now e)\<rparr>) Completed st2;
                          cacheKey = generateCacheKey (imageId j) (job_transformations j);
                          st4 = st3\<lparr>worker_cache :=
                                  snd (setInCache (worker_cache st3) cacheKey (out_path result))\<rparr>
                      in (Inr result, st4))))"

text \<open>
  The callback that \<^verbatim>\<open>consumeFromQueue\<close> registers: log the job as received, run
  the handler, then acknowledge, or on an exception \<^verbatim>\<open>nack(msg, false, true)\<close>
  (not multiple, requeue).
\<close>

datatype settlement = Ack | Nack bool bool

definition onMessage :: "sharp \<Rightarrow> env \<Rightarrow> state \<Rightarrow> job \<Rightarrow> settlement \<times> state" where
  "onMessage sharp e st content =
     (case processJob sharp e (st\<lparr>received := received st @ [jobId content]\<rparr>) content of
        (Inr r, st') \<Rightarrow> (Ack, st')
      | (Inl err, st') \<Rightarrow> (Nack False True, st'))"

text \<open>The state once the consumer has logged the job and \<^verbatim>\<open>processJob\<close> has made
  its first update.\<close>

definition mark_processing :: "job \<Rightarrow> state \<Rightarrow> state" where
  "mark_processing j st =
     update_status (imageId j) (\<lambda>r. r\<lparr>processingError := None\<rparr>) Processing
       (st\<lparr>received := received st @ [jobId j]\<rparr>)"

text \<open>
  One delivery by the broker (prefetch 1): the message at the head of the queue goes to
  the consumer; an acknowledged message leaves the queue, a message rejected with requeue
  is put back where it was, one rejected without requeue is dropped.
\<close>

definition deliver :: "sharp \<Rightarrow> env \<Rightarrow> state \<Rightarrow> state" where
  "deliver sharp e st =
     (case queue st of
        [] \<Rightarrow> st
      | msg # rest \<Rightarrow>
          (case onMessage sharp e st msg of
             (Ack, st') \<Rightarrow> st'\<lparr>queue := rest\<rparr>
           | (Nack multiple requeue, st') \<Rightarrow>
               if requeue then st'\<lparr>queue := msg # rest\<rparr> else st'\<lparr>queue := rest\<rparr>))"

fun deliveries :: "sharp \<Rightarrow> env list \<Rightarrow> state \<Rightarrow> state" where
  "deliveries sharp [] st = st"
| "deliveries sharp (e # es) st = deliveries sharp es (deliver sharp e st)"

definition statuses_of :: "string \<Rightarrow> state \<Rightarrow> status list" where
  "statuses_of i st = map snd (filter (\<lambda>p. fst p = i) (status_log st))"

section \<open>A reference for the library's geometry\<close>

text \<open>
  The size of the image that sharp writes, for the calls whose effect on the size is
  fixed by the library's contract: a resize to a width and a height under the fits
  \<open>cover\<close>, \<open>contain\<close> and \<open>fill\<close> yields exactly that box; \<^verbatim>\<open>extract\<close>
  called after a resize takes its rectangle from the resized image (from the source when
  no resize is set) and fails when the rectangle exceeds it; the mirror, colour and
  encoder calls keep the size. Calls whose result depends on scaling arithmetic or on the
  library version (aspect-preserving resizes, rotation, overlays, free-form parameters)
  are outside this reference and reported as such.
\<close>

definition unsupported :: "error + image_file" where
  "unsupported = Inl (Error ''outside the reference geometry'')"

definition valid_fit :: "jsval \<Rightarrow> bool" where
  "valid_fit f = (f = Some (JStr ''cover'') \<or> f = Some (JStr ''contain'') \<or> f = Some (JStr ''fill''))"

definition valid_quality :: "jsval \<Rightarrow> bool" where
  "valid_quality q = (case q of Some (JNum n) \<Rightarrow> 1 \<le> n \<and> n \<le> 100 | _ \<Rightarrow> False)"

definition as_int :: "jsval \<Rightarrow> int option" where
  "as_int v = (case v of Some (JNum n) \<Rightarrow> Some n | _ \<Rightarrow> None)"

definition resize_geometry :: "image_file \<Rightarrow> jsval \<Rightarrow> jsval \<Rightarrow> resize_options \<Rightarrow> error + image_file" where
  "resize_geometry img width height opts =
     (if width = None \<and> height = None then Inr img
      else case (as_int width, as_int height) of
             (Some w, Some h) \<Rightarrow>
               if w \<le> 0 then Inl (Error ''Expected positive integer for width'')
               else if h \<le> 0 then Inl (Error ''Expected positive integer for height'')
               else if valid_fit (fit opts) \<and> \<not> truthy (withoutEnlargement opts)
                 then Inr \<lparr>img_width = nat w, img_height = nat h\<rparr>
               else unsupported
           | _ \<Rightarrow> unsupported)"

definition extract_geometry :: "image_file \<Rightarrow> jsval \<Rightarrow> jsval \<Rightarrow> jsval \<Rightarrow> jsval \<Rightarrow> error + image_file" where
  "extract_geometry img x y width height =
     (case (as_int x, as_int y, as_int width, as_int height) of
        (Some l, Some t, Some w, Some h) \<Rightarrow>
          if l < 0 \<or> t < 0 \<or> w \<le> 0 \<or> h \<le> 0 then Inl (Error ''Expected positive integer for extract'')
          else if l + w > int (img_width img) \<or> t + h > int (img_height img)
            then Inl (Error ''extract_area: bad extract area'')
          else Inr \<lparr>img_width = nat w, img_height = nat h\<rparr>
      | _ \<Rightarrow> Inl (Error ''Expected positive integer for extract''))"

definition encoder_geometry :: "image_file \<Rightarrow> jsval \<Rightarrow> error + image_file" where
  "encoder_geometry img quality =
     (if valid_quality quality then Inr img
      else Inl (Error ''Expected integer between 1 and 100 for quality''))"

fun geometry_call :: "image_file \<Rightarrow> sharp_call \<Rightarrow> error + image_file" where
  "geometry_call img (Resize w h opts) = resize_geometry img w h opts"
| "geometry_call img (Extract l t w h) = extract_geometry img l t w h"
| "geometry_call img (Rotate a b) = unsupported"
| "geometry_call img Flip = Inr img"
| "geometry_call img Flop = Inr img"
| "geometry_call img Grayscale = Inr img"
| "geometry_call img (Modulate m) = (if m = Saturation_half then Inr img else unsupported)"
| "geometry_call img (Tint r g b) = Inr img"
| "geometry_call img (Blur v) = unsupported"
| "geometry_call img Sharpen = Inr img"
| "geometry_call img Negate = Inr img"
| "geometry_call img Normalize = Inr img"
| "geometry_call img (Gamma v) = unsupported"
| "geometry_call img (Composite w g) = unsupported"
| "geometry_call img (Jpeg q m) = encoder_geometry img q"
| "geometry_call img (Png q l) = encoder_geometry img q"
| "geometry_call img (Webp q) = encoder_geometry img q"
| "geometry_call img Gif = Inr img"
| "geometry_call img (Tiff q) = encoder_geometry img q"
| "geometry_call img (Avif q) = encoder_geometry img q"
| "geometry_call img (ToFormat f) = unsupported"

fun sharp_geometry :: sharp where
  "sharp_geometry img [] = Inr img"
| "sharp_geometry img (c # cs) =
     (case geometry_call img c of
        Inl e \<Rightarrow> Inl e
      | Inr img' \<Rightarrow> sharp_geometry img' cs)"

section \<open>Example inputs\<close>

text \<open>Two specs with the same field-value pairs, entered in different orders at both levels.\<close>

definition spec_ordered :: fields where
  "spec_ordered =
     [(''resize'', JObj [(''width'', JNum 100), (''height'', JNum 50)]), (''quality'', JNum 80)]"

definition spec_shuffled :: fields where
  "spec_shuffled =
     [(''quality'', JNum 80), (''resize'', JObj [(''height'', JNum 50), (''width'', JNum 100)])]"

text \<open>
  One uploaded image of 1000 by 800 pixels, owned by \<open>alice\<close>, with its file on disk;
  both caches empty, the channel open, the queue empty.
\<close>

definition photo :: image where
  "photo = \<lparr>userId = ''alice'', filename = ''photo.jpg'', path = ''uploads/photo.jpg'',
             transformations = [], isProcessing = False, processingStatus = Completed,
             processingError = None, lastTransformedAt = None\<rparr>"

definition state0 :: state where
  "state0 = \<lparr>db = [''img1'' \<mapsto> photo],
              files = [''uploads/photo.jpg'' \<mapsto> \<lparr>img_width = 1000, img_height = 800\<rparr>],
              cache = imageCache, worker_cache = imageCache, channel_open = True,
              queue = [], status_log = [], received = []\<rparr>"

text \<open>Two requests' environments, and two specs that differ in nested values only.\<close>

definition env1 :: env where
  "env1 = \<lparr>uuid = ''u1'', now = ''t1''\<rparr>"

definition env2 :: env where
  "env2 = \<lparr>uuid = ''u2'', now = ''t2''\<rparr>"

definition spec_small :: fields where
  "spec_small = [(''resize'', JObj [(''width'', JNum 100), (''height'', JNum 100)])]"

definition spec_large :: fields where
  "spec_large = [(''resize'', JObj [(''width'', JNum 200), (''height'', JNum 200)])]"

definition request_for :: "fields \<Rightarrow> request" where
  "request_for t = \<lparr>params_id = ''img1'', req_userId = ''alice'', body_transformations = t\<rparr>"

text \<open>The spec of the pipeline ordering example, and the same two boxes exchanged.\<close>

definition spec_crop_resize :: fields where
  "spec_crop_resize =
     [(''crop'', JObj [(''x'', JNum 0), (''y'', JNum 0), (''width'', JNum 500), (''height'', JNum 400)]),
      (''resize'', JObj [(''width'', JNum 250), (''height'', JNum 200)])]"

definition spec_resize_crop :: fields where
  "spec_resize_crop =
     [(''resize'', JObj [(''width'', JNum 500), (''height'', JNum 400)]),
      (''crop'', JObj [(''x'', JNum 0), (''y'', JNum 0), (''width'', JNum 250), (''height'', JNum 200)])]"

text \<open>A crop rectangle that exceeds the 1000 by 800 source.\<close>

definition spec_bad_crop :: fields where
  "spec_bad_crop =
     [(''crop'', JObj [(''x'', JNum 0), (''y'', JNum 0), (''width'', JNum 2000), (''height'', JNum 2000)])]"

text \<open>
  The job that \<^verbatim>\<open>transformImage\<close> publishes for the uploaded image in the first
  environment, and the state it leaves: the image marked in flight, the job in the queue.
\<close>

definition job_for :: "fields \<Rightarrow> job" where
  "job_for t = \<lparr>jobId = ''u1'', imageId = ''img1'', job_userId = ''alice'',
                 sourcePath = ''uploads/photo.jpg'', originalFilename = ''photo.jpg'',
                 job_transformations = t, createdAt = ''t1''\<rparr>"

definition queued :: "fields \<Rightarrow> state" where
  "queued t = state0\<lparr>db := [''img1'' \<mapsto> photo\<lparr>isProcessing := True, processingStatus := Pending\<rparr>],
                     queue := [job_for t], status_log := [(''img1'', Pending)]\<rparr>"

text \<open>Insertions of \<open>n\<close> different keys: \<open>k\<close>, \<open>kk\<close>, \<open>kkk\<close> and so on.\<close>

definition fill_ops :: "nat \<Rightarrow> cache_op list" where
  "fill_ops n = map (\<lambda>m. Set_entry (replicate (Suc m) CHR ''k'') ''p'') [0..<n]"

text \<open>Three specs that only the worker's pipeline honours in full.\<close>

definition spec_compress :: fields where
  "spec_compress = [(''compress'', JBool True)]"

definition spec_sepia :: fields where
  "spec_sepia = [(''filters'', JObj [(''sepia'', JBool True)])]"

definition spec_watermark :: fields where
  "spec_watermark = [(''watermark'', JObj [(''text'', JStr ''demo'')])]"

section \<open>The cache key does not depend on field order\<close>

lemma stringify_reordered: "reordered v w \<Longrightarrow> stringify pl v = stringify pl w"
proof (induction rule: reordered.induct)
  case (reordered_arr xs ys)
  then have "map (stringify pl) xs = map (stringify pl) ys"
    by (induction xs ys rule: list_all2_induct) auto
  then show ?case by simp
next
  case (reordered_obj fs gs)
  have "(case map_of fs k of None \<Rightarrow> [] | Some v \<Rightarrow> [quote k @ '':'' @ stringify pl v])
      = (case map_of gs k of None \<Rightarrow> [] | Some v \<Rightarrow> [quote k @ '':'' @ stringify pl v])" for k
    using reordered_obj.IH [rule_format, of k]
    by (cases "map_of fs k"; cases "map_of gs k") auto
  then show ?case by simp
qed simp_all

lemma reordered_keys:
  assumes "reordered (JObj t) (JObj t')"
  shows "set (object_keys t) = set (object_keys t')"
proof -
  from assms have rel: "rel_option reordered (map_of t k) (map_of t' k)" for k
    by (cases rule: reordered.cases) auto
  have "dom (map_of t) = dom (map_of t')"
  proof (rule set_eqI)
    fix k
    show "k \<in> dom (map_of t) \<longleftrightarrow> k \<in> dom (map_of t')"
      using rel [of k] by (cases "map_of t k"; cases "map_of t' k") auto
  qed
  then show ?thesis
    by (simp add: object_keys_def dom_map_of_conv_image_fst)
qed

lemma sort_keys_eq:
  assumes "distinct xs" and "distinct ys" and "set xs = set ys"
  shows "sort xs = sort (ys :: string list)"
  using assms by (intro sorted_distinct_set_unique) auto

text \<open>
  C1. For every image identifier and every transformation spec, re-ordering the spec's
  fields, at the top level and inside nested objects, without changing any field-value
  pair yields the same cache key: the sorted top-level key array fixes both which
  properties are written and in which order, at every depth.
\<close>

theorem cache_key_reorder:
  assumes "wf_json (JObj t)" and "wf_json (JObj t')" and "reordered (JObj t) (JObj t')"
  shows "generateCacheKey i t = generateCacheKey i t'"
proof -
  have "distinct (object_keys t)" "distinct (object_keys t')"
    using assms(1,2) by (simp_all add: object_keys_def)
  then have "sort (object_keys t) = sort (object_keys t')"
    using reordered_keys [OF assms(3)] by (rule sort_keys_eq)
  then show ?thesis
    using stringify_reordered [OF assms(3)] by (simp add: generateCacheKey_def)
qed

theorem cache_key_reorder_witness:
  "wf_json (JObj spec_ordered) \<and> wf_json (JObj spec_shuffled)
   \<and> reordered (JObj spec_ordered) (JObj spec_shuffled)
   \<and> spec_ordered \<noteq> spec_shuffled
   \<and> generateCacheKey ''7'' spec_ordered = generateCacheKey ''7'' spec_shuffled"
proof -
  have a: "wf_json (JObj spec_ordered)" and b: "wf_json (JObj spec_shuffled)"
    by (simp_all add: spec_ordered_def spec_shuffled_def)
  have r: "reordered (JObj spec_ordered) (JObj spec_shuffled)"
    unfolding spec_ordered_def spec_shuffled_def
    by (auto intro!: reordered.intros)
  have d: "spec_ordered \<noteq> spec_shuffled"
    by (simp add: spec_ordered_def spec_shuffled_def)
  show ?thesis
    using a b r d cache_key_reorder [OF a b r, of "''7''"] by simp
qed

section \<open>Nested values do not reach the cache key\<close>

lemma differ_fields_lookup:
  assumes "list_all2 (\<lambda>f g. fst f = fst g \<and> (fst f \<in> set K \<longrightarrow> P (snd f) (snd g))) fs gs"
    and "k \<in> set K"
  shows "rel_option P (map_of fs k) (map_of gs k)"
  using assms by (induction fs gs rule: list_all2_induct) auto

lemma stringify_differ_nested:
  "differ_nested K v w \<Longrightarrow> set pl \<subseteq> set K \<Longrightarrow> stringify pl v = stringify pl w"
proof (induction rule: differ_nested.induct)
  case (differ_arr xs ys)
  then have "map (stringify pl) xs = map (stringify pl) ys"
    by (induction xs ys rule: list_all2_induct) auto
  then show ?case by simp
next
  case (differ_obj fs gs)
  have same: "list_all2 (\<lambda>f g. fst f = fst g \<and>
                 (fst f \<in> set K \<longrightarrow> stringify pl (snd f) = stringify pl (snd g))) fs gs"
    using differ_obj.IH differ_obj.prems by (auto elim!: list_all2_mono)
  have "(case map_of fs k of None \<Rightarrow> [] | Some v \<Rightarrow> [quote k @ '':'' @ stringify pl v])
      = (case map_of gs k of None \<Rightarrow> [] | Some v \<Rightarrow> [quote k @ '':'' @ stringify pl v])"
    if "k \<in> set pl" for k
  proof -
    from that differ_obj.prems have "k \<in> set K" by auto
    from differ_fields_lookup [OF same this]
    show ?thesis by (cases "map_of fs k"; cases "map_of gs k") auto
  qed
  then have "map (\<lambda>k. case map_of fs k of None \<Rightarrow> [] | Some v \<Rightarrow> [quote k @ '':'' @ stringify pl v]) pl
           = map (\<lambda>k. case map_of gs k of None \<Rightarrow> [] | Some v \<Rightarrow> [quote k @ '':'' @ stringify pl v]) pl"
    by (intro map_cong) auto
  then show ?case by (simp only: stringify.simps)
qed simp_all

lemma differ_nested_keys:
  assumes "differ_nested K (JObj a) (JObj b)"
  shows "object_keys a = object_keys b"
proof -
  from assms have "list_all2 (\<lambda>f g. fst f = fst g \<and> (fst f \<in> set K \<longrightarrow> differ_nested K (snd f) (snd g))) a b"
    by (cases rule: differ_nested.cases) auto
  then show ?thesis
    unfolding object_keys_def by (induction a b rule: list_all2_induct) auto
qed

lemma cache_key_differ_nested:
  assumes "differ_nested (object_keys a) (JObj a) (JObj b)"
  shows "generateCacheKey i a = generateCacheKey i b"
proof -
  have "stringify (sort (object_keys a)) (JObj a) = stringify (sort (object_keys a)) (JObj b)"
    using assms by (rule stringify_differ_nested) simp
  then show ?thesis
    using differ_nested_keys [OF assms] by (simp add: generateCacheKey_def)
qed

lemma getFromCache_after_set:
  assumes "\<not> cache_full c" and "p \<noteq> []"
  shows "getFromCache (snd (setInCache c key p)) key = Some p"
  using assms by (simp add: setInCache_def nc_set_def getFromCache_def nc_get_def update_conv')

lemma sync_serves_cached:
  assumes "findOne st i u = Some row" and "files st (path row) \<noteq> None"
    and "getFromCache (cache st) (generateCacheKey i t) = Some p" and "files st p \<noteq> None"
  shows "transformImageSync sharp e st \<lparr>params_id = i, req_userId = u, body_transformations = t\<rparr>
           = (Inr (SendFile p None), st)"
  using assms by (auto simp: transformImageSync_def)

lemma sync_result_cached:
  assumes "transformImageSync sharp e st \<lparr>params_id = i, req_userId = u, body_transformations = t\<rparr>
             = (Inr (SendFile p ct), st')"
    and "\<not> cache_full (cache st)"
  shows "(\<exists>row. findOne st' i u = Some row \<and> files st' (path row) \<noteq> None)
         \<and> getFromCache (cache st') (generateCacheKey i t) = Some p \<and> files st' p \<noteq> None"
  using assms
  by (auto simp: transformImageSync_def Let_def findOne_def getFromCache_after_set path_join_def
           split: option.splits sum.splits if_splits prod.splits)

text \<open>
  C2. For every image identifier and every pair of specs with the same field names that
  differ only in the values of nested fields whose names are not top-level field names
  (as \<^verbatim>\<open>resize:{width:100}\<close> and \<^verbatim>\<open>resize:{width:200}\<close>),
  \<^verbatim>\<open>generateCacheKey\<close> returns the same key; so once
  \<^verbatim>\<open>transformImageSync\<close> has answered a request for the one spec, with room in
  the cache, it answers a request for the other spec with the very same file.
\<close>

theorem stale_cache_hit:
  assumes "differ_nested (object_keys a) (JObj a) (JObj b)"
    and "\<not> cache_full (cache st)"
    and "transformImageSync sharp e st \<lparr>params_id = i, req_userId = u, body_transformations = a\<rparr>
           = (Inr (SendFile p ct), st')"
  shows "generateCacheKey i a = generateCacheKey i b
         \<and> transformImageSync sharp e' st' \<lparr>params_id = i, req_userId = u, body_transformations = b\<rparr>
             = (Inr (SendFile p None), st')"
proof -
  have key: "generateCacheKey i a = generateCacheKey i b"
    using assms(1) by (rule cache_key_differ_nested)
  from sync_result_cached [OF assms(3,2)] obtain row where
    row: "findOne st' i u = Some row" "files st' (path row) \<noteq> None"
    and hit: "getFromCache (cache st') (generateCacheKey i a) = Some p" "files st' p \<noteq> None"
    by blast
  from hit(1) key have "getFromCache (cache st') (generateCacheKey i b) = Some p" by simp
  from sync_serves_cached [OF row this hit(2)] key show ?thesis by simp
qed

lemma first_run:
  "fst (transformImageSync sharp_geometry env1 state0 (request_for spec_small))
     = Inr (SendFile ''processed/u1.jpg'' (Some ''image/jpeg''))"
  by (simp add: transformImageSync_def state0_def env1_def request_for_def spec_small_def findOne_def photo_def
      imageCache_def getFromCache_def nc_get_def sync_pipeline_def output_format_def extname_slice1_def basename_def
      sync_stages_def sync_encode_def field_def js_or_def resize_geometry_def as_int_def valid_fit_def
      encoder_geometry_def valid_quality_def PROCESSED_DIR_def path_join_def contentTypes_def Let_def)

theorem stale_cache_hit_witness:
  "differ_nested (object_keys spec_small) (JObj spec_small) (JObj spec_large)
   \<and> spec_small \<noteq> spec_large
   \<and> \<not> cache_full (cache state0)
   \<and> fst (transformImageSync sharp_geometry env1 state0 (request_for spec_small))
       = Inr (SendFile ''processed/u1.jpg'' (Some ''image/jpeg''))
   \<and> generateCacheKey ''img1'' spec_small = generateCacheKey ''img1'' spec_large
   \<and> fst (transformImageSync sharp_geometry env2
            (snd (transformImageSync sharp_geometry env1 state0 (request_for spec_small)))
            (request_for spec_large))
       = Inr (SendFile ''processed/u1.jpg'' None)"
proof -
  have d: "differ_nested (object_keys spec_small) (JObj spec_small) (JObj spec_large)"
    unfolding spec_small_def spec_large_def object_keys_def
    by (auto intro!: differ_nested.intros)
  have n: "spec_small \<noteq> spec_large" by (simp add: spec_small_def spec_large_def)
  have c: "\<not> cache_full (cache state0)" by (simp add: cache_full_def state0_def imageCache_def)
  have r: "transformImageSync sharp_geometry env1 state0
             \<lparr>params_id = ''img1'', req_userId = ''alice'', body_transformations = spec_small\<rparr>
           = (Inr (SendFile ''processed/u1.jpg'' (Some ''image/jpeg'')),
              snd (transformImageSync sharp_geometry env1 state0 (request_for spec_small)))"
    using first_run by (simp add: request_for_def prod_eq_iff)
  show ?thesis
    using d n c first_run stale_cache_hit [OF d c r, of env2] by (simp add: request_for_def)
qed

section \<open>Resize precedes crop\<close>

lemmas geometry_defs = resize_geometry_def extract_geometry_def encoder_geometry_def as_int_def
  valid_fit_def valid_quality_def unsupported_def

lemmas pipeline_defs = worker_pipeline_def worker_stages_def worker_resize_def worker_filters_def
  worker_watermark_def worker_encode_def sync_pipeline_def sync_stages_def sync_encode_def
  output_format_def field_def js_or_def

lemma worker_crop_resize_calls:
  "worker_stages spec_crop_resize =
     Inr [Resize (Some (JNum 250)) (Some (JNum 200))
            \<lparr>fit = Some (JStr ''cover''), position = Some (JStr ''center''),
             withoutEnlargement = Some (JBool False)\<rparr>,
          Extract (Some (JNum 0)) (Some (JNum 0)) (Some (JNum 500)) (Some (JNum 400))]"
  by (simp add: spec_crop_resize_def pipeline_defs)

lemma sync_crop_resize_calls:
  "sync_stages spec_crop_resize =
     [Resize (Some (JNum 250)) (Some (JNum 200))
        \<lparr>fit = Some (JStr ''cover''), position = Some (JStr ''center''), withoutEnlargement = None\<rparr>,
      Extract (Some (JNum 0)) (Some (JNum 0)) (Some (JNum 500)) (Some (JNum 400))]"
  by (simp add: spec_crop_resize_def pipeline_defs)

lemma geometry_append_fail:
  "sharp_geometry img cs = Inl e \<Longrightarrow> sharp_geometry img (cs @ ds) = Inl e"
  by (induction cs arbitrary: img) (auto split: sum.splits)

lemma worker_crop_resize_fails:
  assumes "worker_pipeline src spec_crop_resize = Inr (calls, f)"
  shows "sharp_geometry img calls = Inl (Error ''extract_area: bad extract area'')"
proof -
  obtain enc where "calls = [Resize (Some (JNum 250)) (Some (JNum 200))
            \<lparr>fit = Some (JStr ''cover''), position = Some (JStr ''center''),
             withoutEnlargement = Some (JBool False)\<rparr>,
          Extract (Some (JNum 0)) (Some (JNum 0)) (Some (JNum 500)) (Some (JNum 400))] @ [enc]"
    using assms by (auto simp: worker_pipeline_def worker_crop_resize_calls split: sum.splits)
  then show ?thesis
    by (simp add: geometry_defs)
qed

lemma crop_resize_no_format: "map_of spec_crop_resize ''format'' = None"
  by (simp add: spec_crop_resize_def)

lemma worker_pipeline_crop_resize_ok: "\<exists>calls f. worker_pipeline src spec_crop_resize = Inr (calls, f)"
  by (simp add: worker_pipeline_def worker_crop_resize_calls output_format_def crop_resize_no_format)

lemma apply_crop_resize_fails:
  assumes "fs src = Some img"
  shows "applyTransformations sharp_geometry fs src spec_crop_resize None u
           = Inl (Error ''extract_area: bad extract area'')"
proof -
  obtain calls f where p: "worker_pipeline src spec_crop_resize = Inr (calls, f)"
    using worker_pipeline_crop_resize_ok by blast
  show ?thesis
    using assms p worker_crop_resize_fails [OF p, of img]
    by (simp add: applyTransformations_def)
qed

lemma sync_crop_resize_fails:
  assumes "sync_pipeline name spec_crop_resize = Inr (calls, f)"
  shows "sharp_geometry img calls = Inl (Error ''extract_area: bad extract area'')"
proof -
  obtain enc where "calls = [Resize (Some (JNum 250)) (Some (JNum 200))
        \<lparr>fit = Some (JStr ''cover''), position = Some (JStr ''center''), withoutEnlargement = None\<rparr>,
      Extract (Some (JNum 0)) (Some (JNum 0)) (Some (JNum 500)) (Some (JNum 400))] @ [enc]"
    using assms by (auto simp: sync_pipeline_def sync_crop_resize_calls split: sum.splits)
  then show ?thesis
    by (simp add: geometry_defs)
qed

lemma sync_pipeline_crop_resize_ok: "\<exists>calls f. sync_pipeline name spec_crop_resize = Inr (calls, f)"
  by (simp add: sync_pipeline_def output_format_def crop_resize_no_format)

lemma sync_request_crop_resize_fails:
  assumes "findOne st i uid = Some row" and "files st (path row) = Some img"
    and "getFromCache (cache st) (generateCacheKey i spec_crop_resize) = None"
  shows "transformImageSync sharp_geometry e st
           \<lparr>params_id = i, req_userId = uid, body_transformations = spec_crop_resize\<rparr>
         = (Inl (Error ''extract_area: bad extract area''), st)"
proof -
  obtain calls f where p: "sync_pipeline (filename row) spec_crop_resize = Inr (calls, f)"
    using sync_pipeline_crop_resize_ok by blast
  show ?thesis
    using assms p sync_crop_resize_fails [OF p, of img]
    by (simp add: transformImageSync_def)
qed

lemma apply_resize_crop_ok:
  assumes "fs src = Some img" and "extname_slice1 src = ''jpg''"
  shows "applyTransformations sharp_geometry fs src spec_resize_crop None u
           = Inr (\<lparr>out_path = ''processed/'' @ u @ ''.jpg'', out_filename = u @ ''.jpg'', out_format = ''jpg'',
                   out_width = 250, out_height = 200\<rparr>,
                  fs(''processed/'' @ u @ ''.jpg'' \<mapsto> \<lparr>img_width = 250, img_height = 200\<rparr>))"
  using assms
  by (simp add: applyTransformations_def spec_resize_crop_def pipeline_defs geometry_defs toLowerCase_def lower_char_def
      PROCESSED_DIR_def path_join_def Let_def)


lemma photo_row: "findOne state0 ''img1'' ''alice'' = Some photo"
  by (simp add: findOne_def state0_def photo_def)

lemma photo_file: "files state0 ''uploads/photo.jpg'' = Some \<lparr>img_width = 1000, img_height = 800\<rparr>"
  by (simp add: state0_def)

lemma photo_path: "path photo = ''uploads/photo.jpg''"
  by (simp add: photo_def)

lemma photo_ext: "extname_slice1 ''uploads/photo.jpg'' = ''jpg''"
  by (simp add: extname_slice1_def basename_def)

lemma empty_cache_miss: "getFromCache (cache state0) k = None"
  by (simp add: state0_def imageCache_def getFromCache_def nc_get_def)

text \<open>
  C3, as the code has it. Both pipelines call \<^verbatim>\<open>resize\<close> before
  \<^verbatim>\<open>extract\<close>, so the crop rectangle is taken from the resized image: for every
  source image (the 1000 by 800 one among them) the spec
  \<^verbatim>\<open>{crop:{x:0,y:0,width:500,height:400}, resize:{width:250,height:200}}\<close> fails on
  the worker path and on the synchronous path, the 500 by 400 rectangle exceeding the
  250 by 200 image, and nothing is written; with the two boxes exchanged (resize to 500
  by 400, crop 250 by 200) the output is exactly 250 by 200.
\<close>

theorem resize_precedes_crop:
  assumes "fs src = Some img" and "extname_slice1 src = ''jpg''"
    and "findOne st i uid = Some row" and "files st (path row) = Some img'"
    and "getFromCache (cache st) (generateCacheKey i spec_crop_resize) = None"
  shows "applyTransformations sharp_geometry fs src spec_crop_resize None u
           = Inl (Error ''extract_area: bad extract area'')
       \<and> transformImageSync sharp_geometry e st
           \<lparr>params_id = i, req_userId = uid, body_transformations = spec_crop_resize\<rparr>
           = (Inl (Error ''extract_area: bad extract area''), st)
       \<and> (\<exists>d fs'. applyTransformations sharp_geometry fs src spec_resize_crop None u = Inr (d, fs')
              \<and> out_width d = 250 \<and> out_height d = 200)"
  using assms apply_crop_resize_fails [where fs = fs and src = src and img = img and u = u]
    sync_request_crop_resize_fails [OF assms(3,4,5), of e]
    apply_resize_crop_ok [where fs = fs and src = src and img = img and u = u]
  by simp

theorem resize_precedes_crop_witness:
  "files state0 ''uploads/photo.jpg'' = Some \<lparr>img_width = 1000, img_height = 800\<rparr>
   \<and> applyTransformations sharp_geometry (files state0) ''uploads/photo.jpg'' spec_crop_resize None ''u1''
       = Inl (Error ''extract_area: bad extract area'')
   \<and> transformImageSync sharp_geometry env1 state0 (request_for spec_crop_resize)
       = (Inl (Error ''extract_area: bad extract area''), state0)
   \<and> (\<exists>d fs'. applyTransformations sharp_geometry (files state0) ''uploads/photo.jpg'' spec_resize_crop None ''u1''
                 = Inr (d, fs')
              \<and> out_width d = 250 \<and> out_height d = 200)"
proof -
  have f: "files state0 (path photo) = Some \<lparr>img_width = 1000, img_height = 800\<rparr>"
    by (simp add: photo_path photo_file)
  show ?thesis
    using photo_file photo_ext photo_row f empty_cache_miss
      resize_precedes_crop [where fs = "files state0" and src = "''uploads/photo.jpg''"
        and img = "\<lparr>img_width = 1000, img_height = 800\<rparr>" and st = state0 and i = "''img1''"
        and uid = "''alice''" and row = photo and img' = "\<lparr>img_width = 1000, img_height = 800\<rparr>"
        and u = "''u1''" and e = env1]
    by (simp add: request_for_def)
qed

theorem crop_then_resize_counterexample:
  "\<not> (\<exists>d fs'. applyTransformations sharp_geometry (files state0) ''uploads/photo.jpg'' spec_crop_resize None ''u1''
                 = Inr (d, fs')
              \<and> out_width d = 250 \<and> out_height d = 200)"
  using photo_file
    apply_crop_resize_fails [where fs = "files state0" and src = "''uploads/photo.jpg''"
      and img = "\<lparr>img_width = 1000, img_height = 800\<rparr>" and u = "''u1''"]
  by simp

section \<open>The in-flight flag on the asynchronous endpoint\<close>

lemma transformImage_state0:
  "transformImage env1 state0 (request_for t) = (Inr (Accepted ''u1'' ''img1'' t), queued t)"
  by (simp add: transformImage_def request_for_def findOne_def photo_def Let_def
      update_status_def publishToQueue_def state0_def env1_def queued_def job_for_def)

text \<open>
  C5. For every image record whose \<^verbatim>\<open>isProcessing\<close> flag is true, a call of
  \<^verbatim>\<open>transformImage\<close> for that image by its owner fails with the 409 error
  (AlreadyProcessing) and leaves the whole state, the queue included, as it was: no
  second job message is published.
\<close>

theorem already_processing_rejected:
  assumes "db st (params_id req) = Some row" and "userId row = req_userId req" and "isProcessing row"
  shows "transformImage e st req
           = (Inl (ApiError 409 ''Image is currently being processed. Please wait.''), st)
       \<and> queue (snd (transformImage e st req)) = queue st"
  using assms by (simp add: transformImage_def findOne_def)

lemma queued_row:
  "db (queued t) ''img1'' = Some (photo\<lparr>isProcessing := True, processingStatus := Pending\<rparr>)"
  by (simp add: queued_def)

theorem already_processing_rejected_witness:
  "transformImage env1 state0 (request_for spec_small) = (Inr (Accepted ''u1'' ''img1'' spec_small), queued spec_small)
   \<and> queue (queued spec_small) = [job_for spec_small]
   \<and> transformImage env2 (queued spec_small) (request_for spec_large)
       = (Inl (ApiError 409 ''Image is currently being processed. Please wait.''), queued spec_small)
   \<and> queue (snd (transformImage env2 (queued spec_small) (request_for spec_large))) = [job_for spec_small]"
proof -
  have q: "queue (queued spec_small) = [job_for spec_small]" by (simp add: queued_def)
  have r: "db (queued spec_small) (params_id (request_for spec_large))
             = Some (photo\<lparr>isProcessing := True, processingStatus := Pending\<rparr>)"
    by (simp add: request_for_def queued_row)
  have u: "userId (photo\<lparr>isProcessing := True, processingStatus := Pending\<rparr>) = req_userId (request_for spec_large)"
    by (simp add: request_for_def photo_def)
  have p: "isProcessing (photo\<lparr>isProcessing := True, processingStatus := Pending\<rparr>)" by simp
  show ?thesis
    using transformImage_state0 [of spec_small] q already_processing_rejected [OF r u p, of env2]
    by simp
qed

section \<open>The synchronous endpoint and the in-flight flag\<close>

lemma queued_file: "files (queued t) ''uploads/photo.jpg'' = Some \<lparr>img_width = 1000, img_height = 800\<rparr>"
  by (simp add: queued_def state0_def)

text \<open>
  C6 asks that a transform request for an image whose \<^verbatim>\<open>isProcessing\<close> flag is
  set be rejected on both endpoints. \<^verbatim>\<open>transformImageSync\<close> never reads the flag:
  in the state where the image is in flight, the asynchronous endpoint answers 409 and the
  synchronous endpoint runs the pipeline and sends the new file.
\<close>

theorem sync_ignores_processing_flag:
  "(\<exists>row. db (queued spec_small) ''img1'' = Some row \<and> isProcessing row)
   \<and> fst (transformImage env2 (queued spec_small) (request_for spec_large))
       = Inl (ApiError 409 ''Image is currently being processed. Please wait.'')
   \<and> fst (transformImageSync sharp_geometry env2 (queued spec_small) (request_for spec_large))
       = Inr (SendFile ''processed/u2.jpg'' (Some ''image/jpeg''))"
proof -
  have a: "\<exists>row. db (queued spec_small) ''img1'' = Some row \<and> isProcessing row"
    by (simp add: queued_row)
  have b: "fst (transformImage env2 (queued spec_small) (request_for spec_large))
       = Inl (ApiError 409 ''Image is currently being processed. Please wait.'')"
    by (simp add: transformImage_def findOne_def request_for_def queued_row photo_def)
  have c: "fst (transformImageSync sharp_geometry env2 (queued spec_small) (request_for spec_large))
       = Inr (SendFile ''processed/u2.jpg'' (Some ''image/jpeg''))"
    by (simp add: transformImageSync_def findOne_def request_for_def queued_row queued_file photo_def
        queued_def state0_def imageCache_def getFromCache_def nc_get_def env2_def spec_large_def
        pipeline_defs geometry_defs extname_slice1_def basename_def PROCESSED_DIR_def path_join_def
        contentTypes_def Let_def)
  from a b c show ?thesis by simp
qed

section \<open>A failed job\<close>

lemma onMessage_failure:
  assumes "applyTransformations sharp (files st) (sourcePath j) (job_transformations j) None (uuid e) = Inl err"
  shows "onMessage sharp e st j =
           (Nack False True,
            update_status (imageId j) (\<lambda>r. r\<lparr>isProcessing := False, processingError := Some (message err)\<rparr>) Failed
              (update_status (imageId j) (\<lambda>r. r\<lparr>processingError := None\<rparr>) Processing
                 (st\<lparr>received := received st @ [jobId j]\<rparr>)))"
proof -
  have "files (update_status (imageId j) (\<lambda>r. r\<lparr>processingError := None\<rparr>) Processing
                 (st\<lparr>received := received st @ [jobId j]\<rparr>)) = files st"
    by (simp add: update_status_def split: option.splits)
  with assms show ?thesis
    by (simp add: onMessage_def processJob_def Let_def)
qed

text \<open>
  C7. For every job whose pipeline execution fails (a crop rectangle exceeding the image
  is one case) and whose image record exists, the worker leaves the record with
  \<^verbatim>\<open>processingStatus = 'failed'\<close>, \<^verbatim>\<open>processingError\<close> set to the error's
  message and \<^verbatim>\<open>isProcessing = false\<close>, and the consumer rejects the message with
  requeue. This holds for every behaviour of the image library.
\<close>

theorem failure_recorded:
  assumes "db st (imageId j) = Some row"
    and "applyTransformations sharp (files st) (sourcePath j) (job_transformations j) None (uuid e) = Inl err"
  shows "fst (onMessage sharp e st j) = Nack False True
       \<and> (\<exists>row'. db (snd (onMessage sharp e st j)) (imageId j) = Some row'
                \<and> processingStatus row' = Failed
                \<and> processingError row' = Some (message err)
                \<and> \<not> isProcessing row')"
  using assms(1) by (simp add: onMessage_failure [OF assms(2)] update_status_def)

lemma bad_crop_fails:
  "applyTransformations sharp_geometry (files (queued spec_bad_crop)) (sourcePath (job_for spec_bad_crop))
     (job_transformations (job_for spec_bad_crop)) None u = Inl (Error ''extract_area: bad extract area'')"
  by (simp add: applyTransformations_def job_for_def queued_file spec_bad_crop_def pipeline_defs geometry_defs
        extname_slice1_def basename_def toLowerCase_def lower_char_def Let_def)

theorem failure_recorded_witness:
  "db (queued spec_bad_crop) (imageId (job_for spec_bad_crop))
       = Some (photo\<lparr>isProcessing := True, processingStatus := Pending\<rparr>)
   \<and> applyTransformations sharp_geometry (files (queued spec_bad_crop)) (sourcePath (job_for spec_bad_crop))
        (job_transformations (job_for spec_bad_crop)) None (uuid env2) = Inl (Error ''extract_area: bad extract area'')
   \<and> fst (onMessage sharp_geometry env2 (queued spec_bad_crop) (job_for spec_bad_crop)) = Nack False True
   \<and> (\<exists>row'. db (snd (onMessage sharp_geometry env2 (queued spec_bad_crop) (job_for spec_bad_crop))) ''img1'' = Some row'
            \<and> processingStatus row' = Failed
            \<and> processingError row' = Some ''extract_area: bad extract area''
            \<and> \<not> isProcessing row')"
proof -
  have r: "db (queued spec_bad_crop) (imageId (job_for spec_bad_crop))
       = Some (photo\<lparr>isProcessing := True, processingStatus := Pending\<rparr>)"
    by (simp add: job_for_def queued_row)
  have i: "imageId (job_for spec_bad_crop) = ''img1''" by (simp add: job_for_def)
  show ?thesis
    using r failure_recorded [OF r bad_crop_fails [of "uuid env2"]] bad_crop_fails [of "uuid env2"]
    by (simp add: i)
qed

section \<open>Deliveries, acknowledgement and requeue\<close>

lemma mark_processing_simps:
  "files (mark_processing j st) = files st"
  "queue (mark_processing j st) = queue st"
  "received (mark_processing j st) = received st @ [jobId j]"
  by (simp_all add: mark_processing_def update_status_def split: option.splits)

lemma mark_processing_row:
  "db st (imageId j) = Some row \<Longrightarrow>
     db (mark_processing j st) (imageId j) = Some (row\<lparr>processingError := None, processingStatus := Processing\<rparr>)
     \<and> status_log (mark_processing j st) = status_log st @ [(imageId j, Processing)]"
  by (simp add: mark_processing_def update_status_def)

lemma mark_processing_no_row:
  "db st (imageId j) = None \<Longrightarrow>
     db (mark_processing j st) (imageId j) = None \<and> status_log (mark_processing j st) = status_log st"
  by (simp add: mark_processing_def update_status_def)

lemma deliver_failure:
  assumes "queue st = j # rest"
    and "applyTransformations sharp (files st) (sourcePath j) (job_transformations j) None (uuid e) = Inl err"
  shows "deliver sharp e st =
           (update_status (imageId j)
              (\<lambda>r. r\<lparr>isProcessing := False, processingError := Some (message err)\<rparr>) Failed
              (mark_processing j st))\<lparr>queue := j # rest\<rparr>"
  using assms by (simp add: deliver_def onMessage_failure mark_processing_def)

lemma deliver_failure_simps:
  assumes "queue st = j # rest"
    and "applyTransformations sharp (files st) (sourcePath j) (job_transformations j) None (uuid e) = Inl err"
  shows "queue (deliver sharp e st) = j # rest"
    and "files (deliver sharp e st) = files st"
    and "received (deliver sharp e st) = received st @ [jobId j]"
    and "dom (db (deliver sharp e st)) = dom (db st)"
  by (auto simp: deliver_failure [OF assms] update_status_def mark_processing_def split: option.splits)

lemma deliver_failure_log:
  assumes "queue st = j # rest"
    and "applyTransformations sharp (files st) (sourcePath j) (job_transformations j) None (uuid e) = Inl err"
    and "db st (imageId j) = Some row"
  shows "status_log (deliver sharp e st) = status_log st @ [(imageId j, Processing), (imageId j, Failed)]"
  using mark_processing_row [OF assms(3)]
  by (simp add: deliver_failure [OF assms(1,2)] update_status_def)

lemma deliver_success:
  assumes "queue st = j # rest"
    and "applyTransformations sharp (files st) (sourcePath j) (job_transformations j) None (uuid e) = Inr (r, fs')"
    and "db st (imageId j) = Some row"
  shows "status_log (deliver sharp e st) = status_log st @ [(imageId j, Processing), (imageId j, Completed)]
       \<and> queue (deliver sharp e st) = rest"
proof -
  let ?st1 = "mark_processing j st"
  have st1: "update_status (imageId j) (\<lambda>r. r\<lparr>processingError := None\<rparr>) Processing
               (st\<lparr>received := received st @ [jobId j]\<rparr>) = ?st1"
    by (simp add: mark_processing_def)
  have "\<exists>f c. processJob sharp e (st\<lparr>received := received st @ [jobId j]\<rparr>) j
      = (Inr r, (update_status (imageId j) f Completed (?st1\<lparr>files := fs'\<rparr>))\<lparr>worker_cache := c\<rparr>)"
    unfolding processJob_def st1
    using assms(2) mark_processing_row [OF assms(3)] mark_processing_simps(1) [of j st]
    by (simp add: Let_def) (rule exI, rule exI, rule refl)
  then obtain f c where
    "processJob sharp e (st\<lparr>received := received st @ [jobId j]\<rparr>) j
      = (Inr r, (update_status (imageId j) f Completed (?st1\<lparr>files := fs'\<rparr>))\<lparr>worker_cache := c\<rparr>)"
    by blast
  then show ?thesis
    using assms(1) mark_processing_row [OF assms(3)]
    by (simp add: deliver_def onMessage_def update_status_def)
qed

lemma deliveries_failing:
  assumes "queue st = j # rest"
    and "\<forall>u. \<exists>err. applyTransformations sharp (files st) (sourcePath j) (job_transformations j) None u = Inl err"
  shows "queue (deliveries sharp es st) = j # rest
       \<and> files (deliveries sharp es st) = files st
       \<and> received (deliveries sharp es st) = received st @ replicate (length es) (jobId j)"
  using assms
proof (induction es arbitrary: st)
  case Nil
  then show ?case by simp
next
  case (Cons e es)
  from Cons.prems(2) obtain err where
    err: "applyTransformations sharp (files st) (sourcePath j) (job_transformations j) None (uuid e) = Inl err"
    by blast
  note d = deliver_failure_simps [OF Cons.prems(1) err]
  have "queue (deliveries sharp es (deliver sharp e st)) = j # rest
       \<and> files (deliveries sharp es (deliver sharp e st)) = files (deliver sharp e st)
       \<and> received (deliveries sharp es (deliver sharp e st))
           = received (deliver sharp e st) @ replicate (length es) (jobId j)"
    using Cons.prems(2) by (intro Cons.IH) (simp_all add: d)
  then show ?case
    by (simp add: d replicate_app_Cons_same)
qed

lemma deliveries_failing_log:
  assumes "queue st = j # rest"
    and "\<forall>u. \<exists>err. applyTransformations sharp (files st) (sourcePath j) (job_transformations j) None u = Inl err"
    and "db st (imageId j) \<noteq> None"
  shows "status_log (deliveries sharp es st)
           = status_log st @ concat (replicate (length es) [(imageId j, Processing), (imageId j, Failed)])"
  using assms
proof (induction es arbitrary: st)
  case Nil
  then show ?case by simp
next
  case (Cons e es)
  from Cons.prems(2) obtain err where
    err: "applyTransformations sharp (files st) (sourcePath j) (job_transformations j) None (uuid e) = Inl err"
    by blast
  from Cons.prems(3) obtain row where row: "db st (imageId j) = Some row" by blast
  note d = deliver_failure_simps [OF Cons.prems(1) err]
  have "db (deliver sharp e st) (imageId j) \<noteq> None"
    using d(4) row by blast
  then have "status_log (deliveries sharp es (deliver sharp e st))
           = status_log (deliver sharp e st)
             @ concat (replicate (length es) [(imageId j, Processing), (imageId j, Failed)])"
    using Cons.prems(2) by (intro Cons.IH) (simp_all add: d)
  then show ?case
    by (simp add: deliver_failure_log [OF Cons.prems(1) err row])
qed

text \<open>
  C4, as the code has it. Each delivery of a job whose image record exists takes the
  image's status to processing and then to completed or to failed, and never to pending.
  After completed the message is acknowledged and leaves the queue, so the job is not
  processed again. After failed the message is requeued: the job stays at the head of the
  queue, and the next delivery takes the status from failed back to processing.
\<close>

theorem job_status_steps:
  assumes "queue st = j # rest" and "db st (imageId j) = Some row"
  shows "(case applyTransformations sharp (files st) (sourcePath j) (job_transformations j) None (uuid e) of
            Inr r \<Rightarrow>
              status_log (deliver sharp e st)
                = status_log st @ [(imageId j, Processing), (imageId j, Completed)]
              \<and> queue (deliver sharp e st) = rest
          | Inl err \<Rightarrow>
              status_log (deliver sharp e st)
                = status_log st @ [(imageId j, Processing), (imageId j, Failed)]
              \<and> queue (deliver sharp e st) = j # rest)"
proof (cases "applyTransformations sharp (files st) (sourcePath j) (job_transformations j) None (uuid e)")
  case (Inl err)
  then show ?thesis
    using deliver_failure_log [OF assms(1) Inl assms(2)] deliver_failure_simps(1) [OF assms(1) Inl]
    by simp
next
  case (Inr p)
  obtain r fs' where p: "p = (r, fs')" by (cases p)
  show ?thesis
    using deliver_success [OF assms(1) Inr [unfolded p] assms(2)] Inr by simp
qed

lemma small_job_succeeds:
  "applyTransformations sharp_geometry (files (queued spec_small)) (sourcePath (job_for spec_small))
     (job_transformations (job_for spec_small)) None ''u2''
   = Inr (\<lparr>out_path = ''processed/u2.jpg'', out_filename = ''u2.jpg'', out_format = ''jpg'',
           out_width = 100, out_height = 100\<rparr>,
          (files (queued spec_small))(''processed/u2.jpg'' \<mapsto> \<lparr>img_width = 100, img_height = 100\<rparr>))"
  by (simp add: applyTransformations_def job_for_def queued_file spec_small_def pipeline_defs geometry_defs
        extname_slice1_def basename_def toLowerCase_def lower_char_def Let_def PROCESSED_DIR_def path_join_def)

lemma queued_simps:
  "queue (queued t) = [job_for t]"
  "status_log (queued t) = [(''img1'', Pending)]"
  "received (queued t) = []"
  "imageId (job_for t) = ''img1''"
  "jobId (job_for t) = ''u1''"
  by (simp_all add: queued_def job_for_def state0_def)

theorem job_status_steps_witness:
  "statuses_of ''img1'' (deliver sharp_geometry env2 (queued spec_small)) = [Pending, Processing, Completed]
   \<and> queue (deliver sharp_geometry env2 (queued spec_small)) = []
   \<and> statuses_of ''img1'' (deliver sharp_geometry env2 (queued spec_bad_crop)) = [Pending, Processing, Failed]
   \<and> queue (deliver sharp_geometry env2 (queued spec_bad_crop)) = [job_for spec_bad_crop]"
proof -
  have u: "uuid env2 = ''u2''" by (simp add: env2_def)
  have r: "db (queued t) (imageId (job_for t)) = Some (photo\<lparr>isProcessing := True, processingStatus := Pending\<rparr>)" for t
    by (simp add: queued_simps queued_row)
  show ?thesis
    using job_status_steps [OF queued_simps(1) [of spec_small] r [of spec_small],
                            where sharp = sharp_geometry and e = env2]
      job_status_steps [OF queued_simps(1) [of spec_bad_crop] r [of spec_bad_crop],
                        where sharp = sharp_geometry and e = env2]
    by (simp add: u small_job_succeeds bad_crop_fails queued_simps statuses_of_def)
qed

theorem failed_job_reprocessed_counterexample:
  "statuses_of ''img1'' (deliveries sharp_geometry [env2, env2] (queued spec_bad_crop))
     = [Pending, Processing, Failed, Processing, Failed]
   \<and> \<not> (subseq (statuses_of ''img1'' (deliveries sharp_geometry [env2, env2] (queued spec_bad_crop)))
               [Pending, Processing, Completed]
        \<or> subseq (statuses_of ''img1'' (deliveries sharp_geometry [env2, env2] (queued spec_bad_crop)))
               [Pending, Processing, Failed])"
proof -
  have f: "\<forall>u. \<exists>err. applyTransformations sharp_geometry (files (queued spec_bad_crop))
             (sourcePath (job_for spec_bad_crop)) (job_transformations (job_for spec_bad_crop)) None u = Inl err"
    using bad_crop_fails by blast
  have r: "db (queued spec_bad_crop) (imageId (job_for spec_bad_crop)) \<noteq> None"
    by (simp add: queued_simps queued_row)
  have "statuses_of ''img1'' (deliveries sharp_geometry [env2, env2] (queued spec_bad_crop))
     = [Pending, Processing, Failed, Processing, Failed]"
    using deliveries_failing_log [OF queued_simps(1) f r, of "[env2, env2]"]
    by (simp add: statuses_of_def queued_simps numeral_2_eq_2)
  then show ?thesis by simp
qed

text \<open>
  C8, as the code has it. For every job whose processing fails permanently, every
  delivery ends in a rejection with requeue: after any number of deliveries the message
  is still at the head of the queue and the consumer has received it that many times.
  Nothing counts or bounds the redeliveries.
\<close>

theorem failing_job_requeued_forever:
  assumes "queue st = j # rest"
    and "\<forall>u. \<exists>err. applyTransformations sharp (files st) (sourcePath j) (job_transformations j) None u = Inl err"
  shows "queue (deliveries sharp es st) = j # rest
       \<and> received (deliveries sharp es st) = received st @ replicate (length es) (jobId j)"
  using deliveries_failing [OF assms] by simp

theorem failing_job_requeued_forever_witness:
  "queue (queued spec_bad_crop) = [job_for spec_bad_crop]
   \<and> queue (deliveries sharp_geometry [env1, env2, env1] (queued spec_bad_crop)) = [job_for spec_bad_crop]
   \<and> received (deliveries sharp_geometry [env1, env2, env1] (queued spec_bad_crop)) = [''u1'', ''u1'', ''u1'']"
proof -
  have f: "\<forall>u. \<exists>err. applyTransformations sharp_geometry (files (queued spec_bad_crop))
             (sourcePath (job_for spec_bad_crop)) (job_transformations (job_for spec_bad_crop)) None u = Inl err"
    using bad_crop_fails by blast
  show ?thesis
    using failing_job_requeued_forever [OF queued_simps(1) f, of "[env1, env2, env1]"]
    by (simp add: queued_simps numeral_3_eq_3)
qed

theorem unbounded_redelivery_counterexample:
  "\<not> (\<exists>B. \<forall>es. count_list (received (deliveries sharp_geometry es (queued spec_bad_crop))) ''u1'' \<le> B)"
proof
  assume "\<exists>B. \<forall>es. count_list (received (deliveries sharp_geometry es (queued spec_bad_crop))) ''u1'' \<le> B"
  then obtain B where
    B: "count_list (received (deliveries sharp_geometry es (queued spec_bad_crop))) ''u1'' \<le> B" for es
    by blast
  have f: "\<forall>u. \<exists>err. applyTransformations sharp_geometry (files (queued spec_bad_crop))
             (sourcePath (job_for spec_bad_crop)) (job_transformations (job_for spec_bad_crop)) None u = Inl err"
    using bad_crop_fails by blast
  have c: "count_list (replicate n x) x = n" for n and x :: string
    by (induction n) simp_all
  have "received (deliveries sharp_geometry (replicate (Suc B) env2) (queued spec_bad_crop))
          = replicate (Suc B) ''u1''"
    using deliveries_failing [OF queued_simps(1) f, of "replicate (Suc B) env2"]
    by (simp add: queued_simps)
  with B [of "replicate (Suc B) env2"] c [of "Suc B" "''u1''"] show False
    by simp
qed

section \<open>The cache at its key limit\<close>

lemma length_update_le: "length (AList.update k v al) \<le> Suc (length al)"
  by (induction al) auto

lemma update_fresh: "k \<notin> fst ` set al \<Longrightarrow> AList.update k v al = al @ [(k, v)]"
  by (induction al) auto

lemma nc_del_fold:
  "maxKeys (fold (\<lambda>key c'. nc_del c' key) ks c) = maxKeys c
   \<and> length (entries (fold (\<lambda>key c'. nc_del c' key) ks c)) \<le> length (entries c)"
proof (induction ks arbitrary: c)
  case Nil
  then show ?case by simp
next
  case (Cons k ks)
  have "length (entries (nc_del c k)) \<le> length (entries c)" "maxKeys (nc_del c k) = maxKeys c"
    by (simp_all add: nc_del_def length_delete_le)
  with Cons.IH [of "nc_del c k"] show ?case by simp
qed

lemma cache_step_bound:
  assumes "int (length (entries c)) \<le> maxKeys c"
  shows "maxKeys (cache_step c x) = maxKeys c \<and> int (length (entries (cache_step c x))) \<le> maxKeys c"
proof (cases x)
  case (Set_entry key val)
  show ?thesis
  proof (cases "cache_full c")
    case True
    then show ?thesis using assms by (simp add: Set_entry setInCache_def nc_set_def)
  next
    case False
    then have "int (length (entries c)) < maxKeys c"
      using assms by (simp add: cache_full_def)
    then show ?thesis
      using False length_update_le [of key val "entries c"]
      by (simp add: Set_entry setInCache_def nc_set_def)
  qed
next
  case (Delete_entry key)
  then show ?thesis
    using assms length_delete_le [of key "entries c"] by (simp add: deleteFromCache_def nc_del_def)
next
  case (Clear_image i)
  then show ?thesis
    using assms nc_del_fold [of "filter (prefix (''img_'' @ i @ ''_'')) (map fst (entries c))" c]
    by (simp add: clearImageCache_def)
next
  case Flush
  then show ?thesis using assms by (simp add: flushCache_def)
next
  case (Expire ks)
  have "length (filter (\<lambda>kv. fst kv \<notin> set ks) (entries c)) \<le> length (entries c)"
    by (rule length_filter_le)
  then show ?thesis using assms unfolding Expire by (simp add: nc_expire_def del: length_filter_le)
qed

lemma cache_run_bound:
  assumes "int (length (entries c)) \<le> maxKeys c"
  shows "maxKeys (cache_run c xs) = maxKeys c \<and> int (length (entries (cache_run c xs))) \<le> maxKeys c"
  using assms unfolding cache_run_def
proof (induction xs arbitrary: c)
  case Nil
  then show ?case by simp
next
  case (Cons x xs)
  from cache_step_bound [OF Cons.prems, of x] Cons.IH [of "cache_step c x"]
  show ?case by simp
qed

lemma full_cache_refuses:
  assumes "cache_full c"
  shows "setInCache c key val = (False, c)"
  using assms by (simp add: setInCache_def nc_set_def)

lemma room_cache_accepts:
  assumes "\<not> cache_full c"
  shows "fst (setInCache c key val)"
  using assms by (simp add: setInCache_def nc_set_def)

lemma image_cache_run:
  "maxKeys (cache_run imageCache xs) = 1000 \<and> getCacheStats (cache_run imageCache xs) \<le> 1000"
  using cache_run_bound [of imageCache xs] by (simp add: imageCache_def getCacheStats_def)

text \<open>
  C9, as the code has it. After every history of cache operations the number of keys that
  \<^verbatim>\<open>getCacheStats\<close> reports is at most 1000. The cache never evicts to make room:
  when it holds 1000 keys, \<^verbatim>\<open>setInCache\<close> stores nothing, leaves the cache as it
  is and returns false; when it holds fewer, \<^verbatim>\<open>setInCache\<close> succeeds.
\<close>

theorem cache_refuses_when_full:
  "getCacheStats (cache_run imageCache xs) \<le> 1000
   \<and> (getCacheStats (cache_run imageCache xs) = 1000 \<longrightarrow>
        setInCache (cache_run imageCache xs) key val = (False, cache_run imageCache xs))
   \<and> (getCacheStats (cache_run imageCache xs) < 1000 \<longrightarrow>
        fst (setInCache (cache_run imageCache xs) key val))"
proof -
  note b = image_cache_run [of xs]
  have "cache_full (cache_run imageCache xs) \<longleftrightarrow> getCacheStats (cache_run imageCache xs) = 1000"
    using b by (auto simp: cache_full_def getCacheStats_def)
  then show ?thesis
    using b full_cache_refuses [of "cache_run imageCache xs" key val]
      room_cache_accepts [of "cache_run imageCache xs" key val]
    by auto
qed

lemma fill_entries:
  "n \<le> 1000 \<Longrightarrow>
     cache_run imageCache (fill_ops n)
       = \<lparr>entries = map (\<lambda>m. (replicate (Suc m) CHR ''k'', ''p'')) [0..<n], maxKeys = 1000\<rparr>"
proof (induction n)
  case 0
  then show ?case by (simp add: fill_ops_def cache_run_def imageCache_def)
next
  case (Suc n)
  let ?c = "\<lparr>entries = map (\<lambda>m. (replicate (Suc m) CHR ''k'', ''p'')) [0..<n], maxKeys = 1000\<rparr>"
  have c: "cache_run imageCache (fill_ops n) = ?c" using Suc by simp
  have fresh: "replicate (Suc n) CHR ''k'' \<notin> fst ` set (entries ?c)"
    by (auto simp: image_iff replicate_eq_replicate)
  have nf: "\<not> cache_full ?c" using Suc.prems by (simp add: cache_full_def)
  have "cache_run imageCache (fill_ops (Suc n))
          = snd (setInCache (cache_run imageCache (fill_ops n)) (replicate (Suc n) CHR ''k'') ''p'')"
    by (simp add: fill_ops_def cache_run_def)
  also have "\<dots> = ?c\<lparr>entries := entries ?c @ [(replicate (Suc n) CHR ''k'', ''p'')]\<rparr>"
    unfolding c using nf update_fresh [OF fresh, of "''p''"]
    by (simp add: setInCache_def nc_set_def)
  finally show ?case by simp
qed

theorem cache_refuses_when_full_witness:
  "getCacheStats (cache_run imageCache (fill_ops 1000)) = 1000
   \<and> setInCache (cache_run imageCache (fill_ops 1000)) ''new'' ''p''
       = (False, cache_run imageCache (fill_ops 1000))
   \<and> getCacheStats (cache_run imageCache [Set_entry ''a'' ''p'']) = 1
   \<and> fst (setInCache (cache_run imageCache [Set_entry ''a'' ''p'']) ''new'' ''p'')"
proof -
  have a: "getCacheStats (cache_run imageCache (fill_ops 1000)) = 1000"
    by (simp add: fill_entries getCacheStats_def)
  have b: "getCacheStats (cache_run imageCache [Set_entry ''a'' ''p'']) = 1"
    by (simp add: cache_run_def imageCache_def setInCache_def nc_set_def cache_full_def getCacheStats_def)
  show ?thesis
    using a b cache_refuses_when_full [of "fill_ops 1000" "''new''" "''p''"]
      cache_refuses_when_full [of "[Set_entry ''a'' ''p'']" "''new''" "''p''"]
    by simp
qed

theorem no_eviction_counterexample:
  "getCacheStats (cache_run imageCache (fill_ops 1000)) = 1000
   \<and> fst (setInCache (cache_run imageCache (fill_ops 1000)) ''new'' ''p'') = False
   \<and> getFromCache (snd (setInCache (cache_run imageCache (fill_ops 1000)) ''new'' ''p'')) ''new'' = None
   \<and> getFromCache (snd (setInCache (cache_run imageCache (fill_ops 1000)) ''new'' ''p'')) ''k'' = Some ''p''"
proof -
  let ?c = "cache_run imageCache (fill_ops 1000)"
  have e: "?c = \<lparr>entries = map (\<lambda>m. (replicate (Suc m) CHR ''k'', ''p'')) [0..<1000], maxKeys = 1000\<rparr>"
    by (simp add: fill_entries)
  have full: "cache_full ?c" by (simp add: e cache_full_def)
  have s: "setInCache ?c ''new'' ''p'' = (False, ?c)"
    using full by (rule full_cache_refuses)
  have miss: "map_of (entries ?c) ''new'' = None"
    unfolding e by (auto simp: map_of_eq_None_iff image_iff)
  have "(''k'', ''p'') \<in> set (entries ?c)"
    unfolding e by (auto simp: image_iff intro!: bexI [of _ 0])
  moreover have "distinct (map fst (entries ?c))"
    unfolding e by (auto simp: distinct_map inj_on_def replicate_eq_replicate)
  ultimately have hit: "map_of (entries ?c) ''k'' = Some ''p''"
    by (simp add: map_of_eq_Some_iff)
  show ?thesis
    using miss hit by (simp add: s getFromCache_def nc_get_def) (simp add: e getCacheStats_def)
qed

section \<open>The two pipelines compared\<close>

text \<open>
  C10 asks that the inline pipeline of \<^verbatim>\<open>transformImageSync\<close> and
  \<^verbatim>\<open>applyTransformations\<close> make the same calls with the same parameters. They do
  not: for a JPEG source the synchronous path never reads \<^verbatim>\<open>compress\<close> and
  encodes at quality 80 where the worker encodes at 60; for sepia it only tints where the
  worker desaturates first; and it makes no watermark call at all.
\<close>

theorem sync_and_worker_pipelines_differ:
  "sync_pipeline ''photo.jpg'' spec_compress = Inr ([Jpeg (Some (JNum 80)) False], ''jpg'')
   \<and> worker_pipeline ''uploads/photo.jpg'' spec_compress = Inr ([Jpeg (Some (JNum 60)) True], ''jpg'')
   \<and> sync_pipeline ''photo.jpg'' spec_sepia = Inr ([Tint 112 66 20, Jpeg (Some (JNum 80)) False], ''jpg'')
   \<and> worker_pipeline ''uploads/photo.jpg'' spec_sepia
       = Inr ([Modulate Saturation_half, Tint 112 66 20, Jpeg (Some (JNum 80)) True], ''jpg'')
   \<and> sync_pipeline ''photo.jpg'' spec_watermark = Inr ([Jpeg (Some (JNum 80)) False], ''jpg'')
   \<and> worker_pipeline ''uploads/photo.jpg'' spec_watermark
       = Inr ([Composite (JObj [(''text'', JStr ''demo'')]) (Some (JStr ''southeast'')),
               Jpeg (Some (JNum 80)) True], ''jpg'')"
  by (simp add: spec_compress_def spec_sepia_def spec_watermark_def pipeline_defs
      extname_slice1_def basename_def toLowerCase_def lower_char_def)

end
